theory Spec2Isabelle
  imports Complex_Main "HOL-Library.Multiset"
begin

section \<open>Python values\<close>

text \<open>
  A Python \<open>str\<close> is a sequence of Unicode code points, and \<open>len\<close> counts code
  points. The model keeps a string as the list of its code points, so that the
  ellipsis character U+2026 is one element. \<open>ustr\<close> reads an ASCII literal.
  Python's \<open>float\<close> is modelled by \<open>real\<close>: rounding is outside the model;
  the overflow of \<open>float\<close> on an integer is an error of the model.
\<close>

type_synonym pystr = "nat list"

definition ustr :: "string \<Rightarrow> pystr" where
  "ustr s = map of_char s"

text \<open>The slices \<open>xs[:k]\<close> and \<open>xs[k:]\<close>; a negative bound counts from the end.\<close>

definition py_slice_to :: "'a list \<Rightarrow> int \<Rightarrow> 'a list" where
  "py_slice_to xs k =
     (if k < 0 then take (nat (int (length xs) + k)) xs else take (nat k) xs)"

definition py_slice_from :: "'a list \<Rightarrow> int \<Rightarrow> 'a list" where
  "py_slice_from xs k =
     (if k < 0 then drop (nat (int (length xs) + k)) xs else drop (nat k) xs)"

text \<open>
  \<open>str.isspace\<close> on one code point, and \<open>str.strip\<close>, \<open>str.rstrip\<close> without
  arguments, which remove the characters for which it holds.
\<close>

definition py_isspace :: "nat \<Rightarrow> bool" where
  "py_isspace c \<longleftrightarrow>
     (9 \<le> c \<and> c \<le> 13) \<or> (28 \<le> c \<and> c \<le> 32) \<or> c = 133 \<or> c = 160 \<or> c = 5760
     \<or> (8192 \<le> c \<and> c \<le> 8202) \<or> c = 8232 \<or> c = 8233 \<or> c = 8239 \<or> c = 8287
     \<or> c = 12288"

definition py_rstrip :: "pystr \<Rightarrow> pystr" where
  "py_rstrip s = rev (dropWhile py_isspace (rev s))"

definition py_strip :: "pystr \<Rightarrow> pystr" where
  "py_strip s = py_rstrip (dropWhile py_isspace s)"

text \<open>The test \<open>sub in s\<close> on strings: \<open>sub\<close> occurs in \<open>s\<close> as a contiguous run.\<close>

fun starts_with :: "pystr \<Rightarrow> pystr \<Rightarrow> bool" where
  "starts_with s [] = True"
| "starts_with [] (c # sub) = False"
| "starts_with (d # s) (c # sub) = (d = c \<and> starts_with s sub)"

fun py_in :: "pystr \<Rightarrow> pystr \<Rightarrow> bool" where
  "py_in sub [] = (sub = [])"
| "py_in sub (d # s) = (starts_with (d # s) sub \<or> py_in sub s)"

text \<open>
  The values \<open>json.loads\<close> returns. A \<open>dict\<close> is the list of its items, and a key
  is looked up from the front. \<open>None\<close> is \<open>JNull\<close>.
\<close>

datatype json =
    JNull
  | JBool bool
  | JInt int
  | JFloat real
  | JStr pystr
  | JArr "json list"
  | JObj "(pystr \<times> json) list"

datatype py_error = AttributeError | TypeError | ValueError | OverflowError

text \<open>Truth value testing, as \<open>bool(v)\<close>, \<open>not v\<close> and \<open>if v\<close> do it.\<close>

fun py_truthy :: "json \<Rightarrow> bool" where
  "py_truthy JNull = False"
| "py_truthy (JBool b) = b"
| "py_truthy (JInt n) = (n \<noteq> 0)"
| "py_truthy (JFloat x) = (x \<noteq> 0)"
| "py_truthy (JStr s) = (s \<noteq> [])"
| "py_truthy (JArr xs) = (xs \<noteq> [])"
| "py_truthy (JObj kvs) = (kvs \<noteq> [])"

text \<open>
  \<open>v.get(key, default)\<close>: only a \<open>dict\<close> has the method; on any other value the
  attribute lookup raises \<open>AttributeError\<close>.
\<close>

fun py_get :: "json \<Rightarrow> pystr \<Rightarrow> json \<Rightarrow> py_error + json" where
  "py_get (JObj kvs) key dflt = Inr (case map_of kvs key of None \<Rightarrow> dflt | Some v \<Rightarrow> v)"
| "py_get v key dflt = Inl AttributeError"

text \<open>
  The library functions whose result depends on the whole text of a string are
  parameters of the model: \<open>json_loads\<close> (\<open>None\<close> is \<open>JSONDecodeError\<close>),
  \<open>str_lower\<close>, and \<open>float_of_str\<close>, the conversion \<open>float(s)\<close> of a string
  (\<open>None\<close> is \<open>ValueError\<close>).
\<close>

record stdlib =
  json_loads :: "pystr \<Rightarrow> json option"
  str_lower :: "pystr \<Rightarrow> pystr"
  float_of_str :: "pystr \<Rightarrow> real option"

text \<open>
  \<open>float(v)\<close>: numbers and booleans convert, strings are parsed, the rest is a
  \<open>TypeError\<close>. An integer that rounds beyond the largest double, that is one of
  absolute value \<open>2^1024 - 2^970\<close> or more, raises \<open>OverflowError\<close>; below that
  the model takes the integer as the real number it is.
\<close>

definition FLOAT_INT_BOUND :: int where
  "FLOAT_INT_BOUND = 2 ^ 1024 - 2 ^ 970"

fun py_float :: "stdlib \<Rightarrow> json \<Rightarrow> py_error + real" where
  "py_float lib (JInt n) =
     (if \<bar>n\<bar> \<ge> FLOAT_INT_BOUND then Inl OverflowError else Inr (of_int n))"
| "py_float lib (JFloat x) = Inr x"
| "py_float lib (JBool b) = Inr (if b then 1 else 0)"
| "py_float lib (JStr s) =
     (case float_of_str lib s of None \<Rightarrow> Inl ValueError | Some x \<Rightarrow> Inr x)"
| "py_float lib v = Inl TypeError"

section \<open>Settings\<close>

text \<open>
  The module \<open>settings\<close> is not among the sources; its constants are the fields of
  a record that every operation takes as its first argument.
\<close>

record settings =
  AUTO_DEBATE_ENABLED :: bool
  AUTO_DEBATE_MIN_TEXT_LENGTH :: int
  AUTO_DEBATE_COOLDOWN :: real
  AUTO_DEBATE_HISTORY_LIMIT :: int
  AUTO_DEBATE_CONFIDENCE_THRESHOLD :: real
  AUTO_DEBATE_REASON_MAX_CHARS :: int
  CHAT_MEMORY_DB_LIMIT :: int
  CHAT_MEMORY_MESSAGE_CHAR_LIMIT :: int
  MAX_MEMORY_FACTS :: int
  MEMORY_MIN_RECENT_SHARE :: int
  OPENROUTER_API_KEY :: pystr

section \<open>Varied sampler (memory.py)\<close>

text \<open>
  \<open>random.sample(population, k)\<close> returns the elements at \<open>k\<close> distinct positions
  of the population, in the order drawn. The positions the generator draws are
  the argument \<open>draw\<close>; \<open>None\<close> says that \<open>draw\<close> is not an outcome the
  generator can produce for this population and \<open>k\<close>.
\<close>

definition random_sample :: "'a list \<Rightarrow> nat \<Rightarrow> nat list \<Rightarrow> 'a list option" where
  "random_sample population k draw =
     (if length draw = k \<and> distinct draw \<and> list_all (\<lambda>i. i < length population) draw
      then Some (map (\<lambda>i. population ! i) draw) else None)"

definition choose_varied_entries ::
  "settings \<Rightarrow> 'a list \<Rightarrow> int \<Rightarrow> nat list \<Rightarrow> 'a list option" where
  "choose_varied_entries cfg entries limit draw =
     (if limit \<le> 0 \<or> int (length entries) \<le> limit then Some entries
      else
        let recent_keep = py_slice_to entries
              (max (MEMORY_MIN_RECENT_SHARE cfg) (min (limit div 2) (int (length entries))));
            remaining = py_slice_from entries (int (length recent_keep));
            to_pick = limit - int (length recent_keep)
        in if remaining \<noteq> [] \<and> to_pick > 0
           then (case random_sample remaining
                        (nat (min to_pick (int (length remaining)))) draw of
                   None \<Rightarrow> None
                 | Some sampled \<Rightarrow> Some (recent_keep @ sampled))
           else Some recent_keep)"


section \<open>Messages, targets and the process state\<close>

text \<open>
  The fields of \<open>aiogram\<close>'s \<open>Message\<close> and \<open>User\<close> that the code reads. A target
  is a \<open>dict\<close> read with \<open>get\<close> at the keys \<open>user_id\<close>, \<open>name\<close> and \<open>username\<close>;
  an absent key is \<open>None\<close>.
\<close>

record user =
  user_ident :: int
  is_bot :: bool
  full_name :: pystr
  user_username :: "pystr option"

record message =
  chat_id :: int
  chat_type :: pystr
  message_id :: int
  from_user :: "user option"
  msg_text :: "pystr option"
  caption :: "pystr option"
  content_type :: pystr

record target =
  user_id :: "int option"
  name :: "pystr option"
  username :: "pystr option"

text \<open>The module-level dictionaries \<open>auto_debate_last_reply\<close> and \<open>chat_histories\<close>.\<close>

record app_state =
  auto_debate_last_reply :: "int \<rightharpoonup> real"
  chat_histories :: "int \<rightharpoonup> pystr list"

text \<open>
  What is sent to the language model: the fields of the JSON object in the user
  message. \<open>call_openrouter\<close> is a function from the request to the stripped
  content of the answer, \<open>None\<close> when the call fails or the answer is empty.
\<close>

datatype oracle_request =
    DebateRequest int int pystr "pystr list" "target list"
  | MemoryRequest int "int option" pystr pystr "target list"

text \<open>\<open>message.text or message.caption\<close>, and the same followed by \<open>or ""\<close>.\<close>

definition text_or_caption :: "message \<Rightarrow> pystr option" where
  "text_or_caption m =
     (case msg_text m of
        Some t \<Rightarrow> if t \<noteq> [] then Some t else caption m
      | None \<Rightarrow> caption m)"

definition text_or_caption_or_empty :: "message \<Rightarrow> pystr" where
  "text_or_caption_or_empty m =
     (case text_or_caption m of Some t \<Rightarrow> t | None \<Rightarrow> [])"

definition get_chat_history_entries :: "app_state \<Rightarrow> int \<Rightarrow> pystr list" where
  "get_chat_history_entries st c =
     (case chat_histories st c of None \<Rightarrow> [] | Some history \<Rightarrow> history)"

definition has_user_id :: "target \<Rightarrow> bool" where
  "has_user_id t = (case user_id t of None \<Rightarrow> False | Some i \<Rightarrow> i \<noteq> 0)"

definition serialize_targets_for_prompt :: "target list \<Rightarrow> target list" where
  "serialize_targets_for_prompt targets = filter has_user_id targets"

section \<open>Debate decision engine (debate.py)\<close>

definition ELLIPSIS :: pystr where
  "ELLIPSIS = [8230]"

definition build_dialogue_context :: "settings \<Rightarrow> app_state \<Rightarrow> int \<Rightarrow> pystr list" where
  "build_dialogue_context cfg st c =
     py_slice_from (get_chat_history_entries st c) (- AUTO_DEBATE_HISTORY_LIMIT cfg)"

text \<open>
  Lines 102 to 105: \<open>float\<close> under \<open>except (TypeError, ValueError)\<close>. The two
  exceptions named give the confidence 0; any other exception escapes.
\<close>

definition try_float :: "stdlib \<Rightarrow> json \<Rightarrow> py_error + real" where
  "try_float lib c =
     (case py_float lib c of
        Inr x \<Rightarrow> Inr x
      | Inl e \<Rightarrow> if e = TypeError \<or> e = ValueError then Inr 0 else Inl e)"

text \<open>
  Lines 94 to 106 of \<open>should_trigger_auto_debate\<close>: the reading of the answer as
  \<open>(should_reply, confidence, reason)\<close>. A falsy parse result takes the branch of
  the unparseable answer.
\<close>

definition debate_verdict :: "stdlib \<Rightarrow> pystr \<Rightarrow> py_error + (bool \<times> real \<times> json)" where
  "debate_verdict lib response =
     (let parsed = (case json_loads lib response of None \<Rightarrow> JNull | Some v \<Rightarrow> v) in
      if \<not> py_truthy parsed then
        let lowered = str_lower lib response;
            should_reply = (py_in (ustr ''true'') lowered \<or> py_in (ustr ''yes'') lowered);
            confidence = (if should_reply then 1 else 0);
            reason = (if should_reply then JStr (py_strip response) else JNull)
        in Inr (should_reply, confidence, reason)
      else
        case py_get parsed (ustr ''should_reply'') JNull of
          Inl e \<Rightarrow> Inl e
        | Inr sr \<Rightarrow>
            let should_reply = py_truthy sr in
            (case py_get parsed (ustr ''confidence'') (JInt 0) of
               Inl e \<Rightarrow> Inl e
             | Inr c \<Rightarrow>
                 (case try_float lib c of
                    Inl e \<Rightarrow> Inl e
                  | Inr confidence \<Rightarrow>
                      (case parsed of
                         JObj kvs \<Rightarrow>
                           (case py_get parsed (ustr ''reason'') JNull of
                              Inl e \<Rightarrow> Inl e
                            | Inr reason \<Rightarrow> Inr (should_reply, confidence, reason))
                       | _ \<Rightarrow> Inr (should_reply, confidence, JNull)))))"

text \<open>
  Lines 108 to 111: a truthy reason is stripped and cut; \<open>strip\<close> is a method of
  \<open>str\<close> only.
\<close>

definition clip_reason :: "settings \<Rightarrow> json \<Rightarrow> py_error + json" where
  "clip_reason cfg reason =
     (if py_truthy reason then
        (case reason of
           JStr r \<Rightarrow>
             let stripped = py_strip r in
             if int (length stripped) > AUTO_DEBATE_REASON_MAX_CHARS cfg
             then Inr (JStr (py_rstrip (py_slice_to stripped (AUTO_DEBATE_REASON_MAX_CHARS cfg))
                             @ ELLIPSIS))
             else Inr (JStr stripped)
         | _ \<Rightarrow> Inl AttributeError)
      else Inr reason)"

text \<open>
  The decision. \<open>now\<close> is the reading of \<open>time.time()\<close>; the result is the pair
  \<open>(decision, reason)\<close>, with \<open>JNull\<close> for \<open>None\<close>, or the exception that escapes.
\<close>

definition should_trigger_auto_debate ::
  "stdlib \<Rightarrow> settings \<Rightarrow> app_state \<Rightarrow> real \<Rightarrow> (oracle_request \<Rightarrow> pystr option)
     \<Rightarrow> message \<Rightarrow> target list \<Rightarrow> py_error + (bool \<times> json)" where
  "should_trigger_auto_debate lib cfg st now call_openrouter message targets =
     (if \<not> AUTO_DEBATE_ENABLED cfg then Inr (False, JNull)
      else case from_user message of
        None \<Rightarrow> Inr (False, JNull)
      | Some sender \<Rightarrow>
          if is_bot sender then Inr (False, JNull)
          else
            let text = py_strip (text_or_caption_or_empty message) in
            if int (length text) < AUTO_DEBATE_MIN_TEXT_LENGTH cfg then Inr (False, JNull)
            else if (case auto_debate_last_reply st (chat_id message) of
                       None \<Rightarrow> False
                     | Some last_reply \<Rightarrow>
                         last_reply \<noteq> 0 \<and> now - last_reply < AUTO_DEBATE_COOLDOWN cfg)
            then Inr (False, JNull)
            else
              let dialogue = build_dialogue_context cfg st (chat_id message);
                  serialized_targets = serialize_targets_for_prompt targets
              in case call_openrouter
                        (DebateRequest (chat_id message) (user_ident sender) text
                           dialogue serialized_targets) of
                   None \<Rightarrow> Inr (False, JNull)
                 | Some response \<Rightarrow>
                     if response = [] then Inr (False, JNull)
                     else
                       (case debate_verdict lib response of
                          Inl e \<Rightarrow> Inl e
                        | Inr (should_reply, confidence, reason0) \<Rightarrow>
                            (case clip_reason cfg reason0 of
                               Inl e \<Rightarrow> Inl e
                             | Inr reason \<Rightarrow>
                                 if should_reply
                                    \<and> confidence \<ge> AUTO_DEBATE_CONFIDENCE_THRESHOLD cfg
                                 then Inr (True, reason)
                                 else Inr (False, JNull))))"

definition mark_auto_debate_reply :: "app_state \<Rightarrow> real \<Rightarrow> int \<Rightarrow> app_state" where
  "mark_auto_debate_reply st now c =
     st\<lparr>auto_debate_last_reply := (auto_debate_last_reply st)(c \<mapsto> now)\<rparr>"

section \<open>Memory store (database.py)\<close>

text \<open>
  The tables \<open>chat_memories\<close> and \<open>user_memories\<close>. A table is the list of its
  rows in the order of insertion. The key \<open>id\<close> is \<open>AUTOINCREMENT\<close>: a new row
  gets one more than the largest key the table ever held, which the counter of
  the table records. The column \<open>created_at\<close> is never read and is left out.
\<close>

record chat_memory_row =
  cm_id :: nat
  cm_chat_id :: int
  cm_message_id :: "int option"
  cm_author_id :: "int option"
  cm_author_name :: "pystr option"
  cm_summary :: pystr

record user_memory_row =
  um_id :: nat
  um_chat_id :: int
  um_subject_user_id :: int
  um_source_user_id :: "int option"
  um_note :: pystr

record database =
  chat_memories :: "chat_memory_row list"
  chat_memories_seq :: nat
  user_memories :: "user_memory_row list"
  user_memories_seq :: nat

definition empty_database :: database where
  "empty_database = \<lparr> chat_memories = [], chat_memories_seq = 0,
     user_memories = [], user_memories_seq = 0 \<rparr>"

text \<open>\<open>LIMIT n\<close> of SQLite: a negative \<open>n\<close> is no limit.\<close>

definition sql_limit :: "int \<Rightarrow> 'a list \<Rightarrow> 'a list" where
  "sql_limit n rows = (if n < 0 then rows else take (nat n) rows)"

text \<open>\<open>SELECT \<dots> FROM chat_memories WHERE chat_id = ? ORDER BY id DESC LIMIT ?\<close>.\<close>

definition select_chat_memories :: "database \<Rightarrow> int \<Rightarrow> int \<Rightarrow> chat_memory_row list" where
  "select_chat_memories db c n =
     sql_limit n (rev (sort_key cm_id (filter (\<lambda>r. cm_chat_id r = c) (chat_memories db))))"

definition add_chat_memory ::
  "settings \<Rightarrow> database \<Rightarrow> int \<Rightarrow> int option \<Rightarrow> int option \<Rightarrow> pystr option \<Rightarrow> pystr
     \<Rightarrow> database" where
  "add_chat_memory cfg db c msg_id author_id author_name summary =
     (if summary = [] then db
      else
        let new_id = Suc (chat_memories_seq db);
            inserted = db\<lparr> chat_memories := chat_memories db @
                          [\<lparr> cm_id = new_id, cm_chat_id = c, cm_message_id = msg_id,
                             cm_author_id = author_id, cm_author_name = author_name,
                             cm_summary = py_slice_to summary (CHAT_MEMORY_MESSAGE_CHAR_LIMIT cfg) \<rparr>],
                        chat_memories_seq := new_id \<rparr>;
            kept = map cm_id (select_chat_memories inserted c (CHAT_MEMORY_DB_LIMIT cfg))
        in inserted\<lparr> chat_memories :=
             filter (\<lambda>r. \<not> (cm_id r \<notin> set kept \<and> cm_chat_id r = c)) (chat_memories inserted) \<rparr>)"

definition get_chat_memories :: "database \<Rightarrow> int \<Rightarrow> int \<Rightarrow> pystr list" where
  "get_chat_memories db c limit = map cm_summary (select_chat_memories db c limit)"

definition add_user_memory ::
  "settings \<Rightarrow> database \<Rightarrow> int \<Rightarrow> int \<Rightarrow> int option \<Rightarrow> pystr \<Rightarrow> database" where
  "add_user_memory cfg db c subject_user_id source_user_id note =
     (if note = [] then db
      else
        let new_id = Suc (user_memories_seq db)
        in db\<lparr> user_memories := user_memories db @
                  [\<lparr> um_id = new_id, um_chat_id = c, um_subject_user_id = subject_user_id,
                     um_source_user_id = source_user_id,
                     um_note = py_slice_to note (CHAT_MEMORY_MESSAGE_CHAR_LIMIT cfg) \<rparr>],
                user_memories_seq := new_id \<rparr>)"

text \<open>A call of \<open>add_chat_memory\<close> by its arguments, and a sequence of calls.\<close>

record chat_memory_call =
  call_chat_id :: int
  call_message_id :: "int option"
  call_author_id :: "int option"
  call_author_name :: "pystr option"
  call_summary :: pystr

definition add_chat_memory_call :: "settings \<Rightarrow> database \<Rightarrow> chat_memory_call \<Rightarrow> database" where
  "add_chat_memory_call cfg db k =
     add_chat_memory cfg db (call_chat_id k) (call_message_id k) (call_author_id k)
       (call_author_name k) (call_summary k)"

definition add_chat_memories :: "settings \<Rightarrow> database \<Rightarrow> chat_memory_call list \<Rightarrow> database" where
  "add_chat_memories cfg db calls = foldl (add_chat_memory_call cfg) db calls"

text \<open>
  The summaries that a sequence of calls inserts for the conversation \<open>c\<close>, oldest
  first: a call with an empty summary inserts nothing, and a summary is stored cut
  to \<open>CHAT_MEMORY_MESSAGE_CHAR_LIMIT\<close>.
\<close>

definition inserted_summaries :: "settings \<Rightarrow> int \<Rightarrow> chat_memory_call list \<Rightarrow> pystr list" where
  "inserted_summaries cfg c calls =
     map (\<lambda>k. py_slice_to (call_summary k) (CHAT_MEMORY_MESSAGE_CHAR_LIMIT cfg))
       (filter (\<lambda>k. call_chat_id k = c \<and> call_summary k \<noteq> []) calls)"

section \<open>Fact extraction pipeline (memory.py)\<close>

text \<open>\<open>str(n)\<close> for an integer.\<close>

fun nat_digits :: "nat \<Rightarrow> pystr" where
  "nat_digits n = (if n < 10 then [48 + n] else nat_digits (n div 10) @ [48 + n mod 10])"

definition py_str_int :: "int \<Rightarrow> pystr" where
  "py_str_int i = (if i < 0 then 45 # nat_digits (nat (- i)) else nat_digits (nat i))"

definition UNKNOWN_NAME :: pystr where
  "UNKNOWN_NAME = [1053, 1077, 1080, 1079, 1074, 1077, 1089, 1090, 1085, 1099, 1081]"

definition get_display_name :: "user option \<Rightarrow> pystr" where
  "get_display_name u =
     (case u of
        None \<Rightarrow> UNKNOWN_NAME
      | Some usr \<Rightarrow>
          if full_name usr \<noteq> [] then full_name usr
          else (case user_username usr of
                  Some n \<Rightarrow> if n \<noteq> [] then ustr ''@'' @ n
                            else ustr ''ID'' @ py_str_int (user_ident usr)
                | None \<Rightarrow> ustr ''ID'' @ py_str_int (user_ident usr)))"

definition summarize_message_text :: "settings \<Rightarrow> message \<Rightarrow> pystr" where
  "summarize_message_text cfg m =
     (let text = py_strip (text_or_caption_or_empty m) in
      if text \<noteq> [] then py_slice_to text (CHAT_MEMORY_MESSAGE_CHAR_LIMIT cfg)
      else ustr ''<'' @ content_type m @ ustr ''>'')"

text \<open>
  \<open>v or []\<close>, the slice \<open>v[:k]\<close> of a value (lists and strings can be sliced) and
  the iteration over a value (a list gives its elements, a string its characters,
  a \<open>dict\<close> its keys).
\<close>

definition py_or_empty_list :: "json \<Rightarrow> json" where
  "py_or_empty_list v = (if py_truthy v then v else JArr [])"

fun py_value_slice_to :: "json \<Rightarrow> int \<Rightarrow> py_error + json" where
  "py_value_slice_to (JArr xs) k = Inr (JArr (py_slice_to xs k))"
| "py_value_slice_to (JStr s) k = Inr (JStr (py_slice_to s k))"
| "py_value_slice_to v k = Inl TypeError"

fun py_iter :: "json \<Rightarrow> py_error + json list" where
  "py_iter (JArr xs) = Inr xs"
| "py_iter (JStr s) = Inr (map (\<lambda>c. JStr [c]) s)"
| "py_iter (JObj kvs) = Inr (map (\<lambda>kv. JStr (fst kv)) kvs)"
| "py_iter v = Inl TypeError"

text \<open>The loop over the chat facts, lines 174 to 176.\<close>

fun chat_facts_loop :: "json list \<Rightarrow> pystr list \<Rightarrow> pystr list" where
  "chat_facts_loop [] chat_facts = chat_facts"
| "chat_facts_loop (fct # rest) chat_facts =
     chat_facts_loop rest
       (case fct of
          JStr s \<Rightarrow> if py_strip s \<noteq> [] then chat_facts @ [py_strip s] else chat_facts
        | _ \<Rightarrow> chat_facts)"

text \<open>
  \<open>user_facts\<close> is a \<open>dict\<close> from user ids to lists of notes, kept as the list of
  its items in insertion order. \<open>isinstance(uid, int)\<close> holds for integers and for
  booleans, which are the integers 1 and 0 as keys.
\<close>

type_synonym user_facts = "(int \<times> pystr list) list"

fun setdefault_append :: "user_facts \<Rightarrow> int \<Rightarrow> pystr \<Rightarrow> user_facts" where
  "setdefault_append [] uid note = [(uid, [note])]"
| "setdefault_append ((k, notes) # rest) uid note =
     (if k = uid then (k, notes @ [note]) # rest
      else (k, notes) # setdefault_append rest uid note)"

fun as_int :: "json \<Rightarrow> int option" where
  "as_int (JInt n) = Some n"
| "as_int (JBool b) = Some (if b then 1 else 0)"
| "as_int v = None"

text \<open>The loop over the user facts, lines 178 to 184.\<close>

fun user_facts_loop :: "json list \<Rightarrow> user_facts \<Rightarrow> user_facts" where
  "user_facts_loop [] user_facts = user_facts"
| "user_facts_loop (entry # rest) user_facts =
     user_facts_loop rest
       (case entry of
          JObj kvs \<Rightarrow>
            (case (as_int (case map_of kvs (ustr ''user_id'') of None \<Rightarrow> JNull | Some v \<Rightarrow> v),
                   (case map_of kvs (ustr ''note'') of None \<Rightarrow> JNull | Some v \<Rightarrow> v)) of
               (Some uid, JStr note) \<Rightarrow>
                 if py_strip note \<noteq> [] then setdefault_append user_facts uid (py_strip note)
                 else user_facts
             | _ \<Rightarrow> user_facts)
        | _ \<Rightarrow> user_facts)"

definition extract_memory_facts ::
  "stdlib \<Rightarrow> settings \<Rightarrow> (oracle_request \<Rightarrow> pystr option) \<Rightarrow> message \<Rightarrow> target list
     \<Rightarrow> py_error + (pystr list \<times> user_facts)" where
  "extract_memory_facts lib cfg call_openrouter m targets =
     (case text_or_caption m of
        None \<Rightarrow> Inr ([], [])
      | Some text \<Rightarrow>
          if text = [] \<or> OPENROUTER_API_KEY cfg = [] then Inr ([], [])
          else
            let target_payload = serialize_targets_for_prompt targets in
            case call_openrouter
                   (MemoryRequest (chat_id m) (map_option user_ident (from_user m))
                      (get_display_name (from_user m)) text target_payload) of
              None \<Rightarrow> Inr ([], [])
            | Some response \<Rightarrow>
                if response = [] then Inr ([], [])
                else
                  (case json_loads lib response of
                     None \<Rightarrow> Inr ([], [])
                   | Some parsed \<Rightarrow>
                       (case (case parsed of
                                JObj kvs \<Rightarrow>
                                  (case py_get parsed (ustr ''chat_facts'') JNull of
                                     Inl e \<Rightarrow> Inl e
                                   | Inr v \<Rightarrow>
                                       (case py_value_slice_to (py_or_empty_list v)
                                               (MAX_MEMORY_FACTS cfg) of
                                          Inl e \<Rightarrow> Inl e
                                        | Inr sliced \<Rightarrow>
                                            (case py_iter sliced of
                                               Inl e \<Rightarrow> Inl e
                                             | Inr facts \<Rightarrow> Inr (chat_facts_loop facts []))))
                              | _ \<Rightarrow> Inr []) of
                          Inl e \<Rightarrow> Inl e
                        | Inr chat_facts \<Rightarrow>
                            (case py_get parsed (ustr ''user_facts'') JNull of
                               Inl e \<Rightarrow> Inl e
                             | Inr v \<Rightarrow>
                                 (case py_iter (py_or_empty_list v) of
                                    Inl e \<Rightarrow> Inl e
                                  | Inr entries \<Rightarrow>
                                      Inr (chat_facts, user_facts_loop entries []))))))"

text \<open>The fallback note of lines 209 to 212, for one target.\<close>

definition NOTE_MIDDLE :: pystr where
  "NOTE_MIDDLE = [32, 1086, 1073, 1099, 1095, 1085, 1086, 32, 1079, 1072, 1074, 1086, 1076,
     1080, 1090, 32, 1090, 1077, 1084, 1091, 32, 39]"

definition NOTE_END :: pystr where
  "NOTE_END = [39, 32, 1082, 1086, 1075, 1076, 1072, 32, 1086, 1073, 1097, 1072, 1077, 1090,
     1089, 1103, 32, 1089, 32]"

definition THIS_USER :: pystr where
  "THIS_USER = [1101, 1090, 1086, 1090, 32, 1087, 1086, 1083, 1100, 1079, 1086, 1074, 1072,
     1090, 1077, 1083, 1100]"

definition target_name :: "target \<Rightarrow> pystr" where
  "target_name t =
     (case name t of
        Some n \<Rightarrow> if n \<noteq> [] then n
                  else (case username t of
                          Some u \<Rightarrow> if u \<noteq> [] then ustr ''@'' @ u else THIS_USER
                        | None \<Rightarrow> THIS_USER)
      | None \<Rightarrow> (case username t of
                   Some u \<Rightarrow> if u \<noteq> [] then ustr ''@'' @ u else THIS_USER
                 | None \<Rightarrow> THIS_USER))"

definition fallback_note :: "pystr \<Rightarrow> pystr \<Rightarrow> target \<Rightarrow> pystr" where
  "fallback_note author_name summary t =
     author_name @ NOTE_MIDDLE @ summary @ NOTE_END @ target_name t"

text \<open>The loop of lines 205 to 213 over the targets.\<close>

fun fallback_loop ::
  "settings \<Rightarrow> int \<Rightarrow> int option \<Rightarrow> pystr \<Rightarrow> pystr \<Rightarrow> target list \<Rightarrow> database \<Rightarrow> database" where
  "fallback_loop cfg c author_id author_name summary [] db = db"
| "fallback_loop cfg c author_id author_name summary (t # rest) db =
     fallback_loop cfg c author_id author_name summary rest
       (case user_id t of
          None \<Rightarrow> db
        | Some target_id \<Rightarrow>
            if target_id = 0 then db
            else add_user_memory cfg db c target_id author_id
                   (fallback_note author_name summary t))"

text \<open>
  \<open>store_structured_memories\<close> returns the database it leaves behind and the
  exception that escapes, if any: what was written before the exception stays.
\<close>

definition store_structured_memories ::
  "stdlib \<Rightarrow> settings \<Rightarrow> (oracle_request \<Rightarrow> pystr option) \<Rightarrow> database \<Rightarrow> message
     \<Rightarrow> target list \<Rightarrow> database \<times> py_error option" where
  "store_structured_memories lib cfg call_openrouter db m targets =
     (if chat_type m \<noteq> ustr ''group'' \<and> chat_type m \<noteq> ustr ''supergroup'' then (db, None)
      else
        let summary = summarize_message_text cfg m;
            author_id = map_option user_ident (from_user m);
            author_name = get_display_name (from_user m);
            db1 = add_chat_memory cfg db (chat_id m) (Some (message_id m)) author_id
                    (Some author_name) summary
        in case extract_memory_facts lib cfg call_openrouter m targets of
             Inl e \<Rightarrow> (db1, Some e)
           | Inr (chat_facts, user_facts) \<Rightarrow>
               let db2 = foldl (\<lambda>d fct. add_chat_memory cfg d (chat_id m) None author_id
                                  (Some author_name) fct) db1 chat_facts;
                   db3 = foldl (\<lambda>d (subject_id, notes).
                            foldl (\<lambda>d' note. add_user_memory cfg d' (chat_id m) subject_id
                                     author_id note)
                              d (py_slice_to notes (MAX_MEMORY_FACTS cfg))) db2 user_facts
               in if chat_facts = [] \<and> user_facts = [] \<and> targets \<noteq> []
                     \<and> (case text_or_caption m of None \<Rightarrow> False | Some t \<Rightarrow> t \<noteq> [])
                  then (fallback_loop cfg (chat_id m) author_id author_name summary targets db3,
                        None)
                  else (db3, None))"

section \<open>Auxiliary notions for the statements\<close>

text \<open>
  The conditions of lines 55 to 68 of \<open>should_trigger_auto_debate\<close>, all negated:
  the feature is enabled, the sender is present and not a bot, the text is long
  enough, and no cooldown is active.
\<close>

definition passes_gates :: "settings \<Rightarrow> app_state \<Rightarrow> real \<Rightarrow> message \<Rightarrow> bool" where
  "passes_gates cfg st now message \<longleftrightarrow>
     AUTO_DEBATE_ENABLED cfg
     \<and> (case from_user message of None \<Rightarrow> False | Some sender \<Rightarrow> \<not> is_bot sender)
     \<and> AUTO_DEBATE_MIN_TEXT_LENGTH cfg \<le> int (length (py_strip (text_or_caption_or_empty message)))
     \<and> (case auto_debate_last_reply st (chat_id message) of
          None \<Rightarrow> True
        | Some last_reply \<Rightarrow> \<not> (last_reply \<noteq> 0 \<and> now - last_reply < AUTO_DEBATE_COOLDOWN cfg))"

text \<open>Lines 94 to 123 of \<open>should_trigger_auto_debate\<close>: what is returned for an answer.\<close>

definition decide :: "stdlib \<Rightarrow> settings \<Rightarrow> pystr \<Rightarrow> py_error + (bool \<times> json)" where
  "decide lib cfg response =
     (case debate_verdict lib response of
        Inl e \<Rightarrow> Inl e
      | Inr (should_reply, confidence, reason0) \<Rightarrow>
          (case clip_reason cfg reason0 of
             Inl e \<Rightarrow> Inl e
           | Inr reason \<Rightarrow>
               if should_reply \<and> confidence \<ge> AUTO_DEBATE_CONFIDENCE_THRESHOLD cfg
               then Inr (True, reason)
               else Inr (False, JNull)))"

text \<open>
  The invariant of the table \<open>chat_memories\<close>: the rows are in increasing order
  of their keys, and no key exceeds the counter. \<open>rows_of\<close> are the rows of one
  conversation.
\<close>

definition store_inv :: "database \<Rightarrow> bool" where
  "store_inv db \<longleftrightarrow>
     sorted_wrt (<) (map cm_id (chat_memories db))
     \<and> (\<forall>r \<in> set (chat_memories db). cm_id r \<le> chat_memories_seq db)"

definition rows_of :: "database \<Rightarrow> int \<Rightarrow> chat_memory_row list" where
  "rows_of db c = filter (\<lambda>r. cm_chat_id r = c) (chat_memories db)"

text \<open>The columns of a row of \<open>user_memories\<close> without its key.\<close>

definition um_fields :: "user_memory_row \<Rightarrow> int \<times> int \<times> int option \<times> pystr" where
  "um_fields r = (um_chat_id r, um_subject_user_id r, um_source_user_id r, um_note r)"

section \<open>Example configuration\<close>

text \<open>
  A configuration for the worked examples: the cooldown of 60 seconds and the
  confidence threshold 0.6 are those of the spec's scenarios, the other values are
  small so that the examples stay readable.
\<close>

definition example_settings :: settings where
  "example_settings = \<lparr>
     AUTO_DEBATE_ENABLED = True,
     AUTO_DEBATE_MIN_TEXT_LENGTH = 3,
     AUTO_DEBATE_COOLDOWN = 60,
     AUTO_DEBATE_HISTORY_LIMIT = 5,
     AUTO_DEBATE_CONFIDENCE_THRESHOLD = 6 / 10,
     AUTO_DEBATE_REASON_MAX_CHARS = 10,
     CHAT_MEMORY_DB_LIMIT = 3,
     CHAT_MEMORY_MESSAGE_CHAR_LIMIT = 200,
     MAX_MEMORY_FACTS = 3,
     MEMORY_MIN_RECENT_SHARE = 2,
     OPENROUTER_API_KEY = ustr ''key'' \<rparr>"

text \<open>
  Library functions for the examples: \<open>json_loads\<close> is a table of the answers
  used and of the values \<open>json.loads\<close> returns for them, \<open>str_lower\<close> lowers the
  ASCII letters, \<open>float_of_str\<close> knows the text \<open>0.9\<close>.
\<close>

definition ascii_lower :: "pystr \<Rightarrow> pystr" where
  "ascii_lower s = map (\<lambda>c. if 65 \<le> c \<and> c \<le> 90 then c + 32 else c) s"

definition example_stdlib :: "(pystr \<times> json) list \<Rightarrow> stdlib" where
  "example_stdlib decoded = \<lparr>
     json_loads = map_of decoded,
     str_lower = ascii_lower,
     float_of_str = map_of [(ustr ''0.9'', 9 / 10)] \<rparr>"

definition example_user :: user where
  "example_user = \<lparr> user_ident = 7, is_bot = False, full_name = ustr ''Ann'',
     user_username = None \<rparr>"

definition example_message :: message where
  "example_message = \<lparr> chat_id = 100, chat_type = ustr ''group'', message_id = 1,
     from_user = Some example_user, msg_text = Some (ustr ''the earth is flat''),
     caption = None, content_type = ustr ''text'' \<rparr>"

definition empty_state :: app_state where
  "empty_state = \<lparr> auto_debate_last_reply = Map.empty, chat_histories = Map.empty \<rparr>"

definition reply_yes :: pystr where
  \<open>reply_yes = ustr ''{"should_reply": true, "confidence": 0.9, "reason": "nonsense"}''\<close>

definition reply_yes_json :: json where
  "reply_yes_json = JObj [(ustr ''should_reply'', JBool True),
     (ustr ''confidence'', JFloat (9 / 10)), (ustr ''reason'', JStr (ustr ''nonsense''))]"


definition reply_unsure :: pystr where
  \<open>reply_unsure = ustr ''{"should_reply": true, "confidence": 0.4, "reason": "nonsense"}''\<close>

definition reply_unsure_json :: json where
  "reply_unsure_json = JObj [(ustr ''should_reply'', JBool True),
     (ustr ''confidence'', JFloat (4 / 10)), (ustr ''reason'', JStr (ustr ''nonsense''))]"

definition reply_long :: pystr where
  \<open>reply_long = ustr ''{"should_reply": true, "confidence": 0.9, "reason": "abcdefghijkl"}''\<close>

definition reply_long_json :: json where
  "reply_long_json = JObj [(ustr ''should_reply'', JBool True),
     (ustr ''confidence'', JFloat (9 / 10)), (ustr ''reason'', JStr (ustr ''abcdefghijkl''))]"

definition reply_null_confidence :: pystr where
  \<open>reply_null_confidence = ustr ''{"should_reply": true, "confidence": null, "reason": "nonsense"}''\<close>

definition reply_null_confidence_json :: json where
  "reply_null_confidence_json = JObj [(ustr ''should_reply'', JBool True),
     (ustr ''confidence'', JNull), (ustr ''reason'', JStr (ustr ''nonsense''))]"

definition reply_text_confidence :: pystr where
  \<open>reply_text_confidence = ustr ''{"should_reply": true, "confidence": "0.9", "reason": "nonsense"}''\<close>

definition reply_text_confidence_json :: json where
  "reply_text_confidence_json = JObj [(ustr ''should_reply'', JBool True),
     (ustr ''confidence'', JStr (ustr ''0.9'')), (ustr ''reason'', JStr (ustr ''nonsense''))]"

definition reply_word_false :: pystr where
  \<open>reply_word_false = ustr ''{"should_reply": "false", "confidence": 0.9, "reason": "nonsense"}''\<close>

definition reply_word_false_json :: json where
  "reply_word_false_json = JObj [(ustr ''should_reply'', JStr (ustr ''false'')),
     (ustr ''confidence'', JFloat (9 / 10)), (ustr ''reason'', JStr (ustr ''nonsense''))]"

definition reply_no_reason :: pystr where
  \<open>reply_no_reason = ustr ''{"should_reply": true, "confidence": 0.9}''\<close>

definition reply_no_reason_json :: json where
  "reply_no_reason_json = JObj [(ustr ''should_reply'', JBool True),
     (ustr ''confidence'', JFloat (9 / 10))]"

text \<open>An answer whose confidence is the integer \<open>10^309\<close>, written with its 310 digits.\<close>

definition reply_huge_confidence :: pystr where
  \<open>reply_huge_confidence = ustr ''{"should_reply": true, "confidence": ''
     @ ustr ''1000000000000000000000000000000000000000000000000000000000000000000000000000000000000000000000000000000000000000000000000000000000000000000000000000000000000000000000000000000000000000000000000000000000000000000000000000000000000000000000000000000000000000000000000000000000000000000000000000000000000000000000''
     @ ustr '', "reason": "nonsense"}''\<close>

definition reply_huge_confidence_json :: json where
  "reply_huge_confidence_json = JObj [(ustr ''should_reply'', JBool True),
     (ustr ''confidence'', JInt (10 ^ 309)), (ustr ''reason'', JStr (ustr ''nonsense''))]"

definition huge_decoded :: "(pystr \<times> json) list" where
  "huge_decoded = [(reply_huge_confidence, reply_huge_confidence_json)]"

definition example_decoded :: "(pystr \<times> json) list" where
  \<open>example_decoded = [(reply_yes, reply_yes_json), (reply_unsure, reply_unsure_json),
     (reply_long, reply_long_json), (reply_null_confidence, reply_null_confidence_json),
     (reply_text_confidence, reply_text_confidence_json),
     (reply_word_false, reply_word_false_json), (reply_no_reason, reply_no_reason_json),
     (ustr ''{}'', JObj []), (ustr ''null'', JNull), (ustr ''[]'', JArr [])]\<close>

text \<open>Calls of \<open>add_chat_memory\<close> for two conversations, one with an empty summary.\<close>

definition memory_call :: "int \<Rightarrow> pystr \<Rightarrow> chat_memory_call" where
  "memory_call c s = \<lparr> call_chat_id = c, call_message_id = None, call_author_id = Some 7,
     call_author_name = Some (ustr ''Ann''), call_summary = s \<rparr>"

definition example_calls :: "chat_memory_call list" where
  "example_calls = [memory_call 100 (ustr ''a''), memory_call 100 (ustr ''b''),
     memory_call 200 (ustr ''x''), memory_call 100 (ustr ''c''), memory_call 100 [],
     memory_call 100 (ustr ''d''), memory_call 200 (ustr ''y''), memory_call 100 (ustr ''e'')]"

text \<open>
  The message \<open>hello\<close> of the spec's scenario, a target with a user id and a
  target known by name only.
\<close>

definition hello_message :: message where
  "hello_message = \<lparr> chat_id = 100, chat_type = ustr ''group'', message_id = 2,
     from_user = Some example_user, msg_text = Some (ustr ''hello''),
     caption = None, content_type = ustr ''text'' \<rparr>"

definition target_bob :: target where
  "target_bob = \<lparr> user_id = Some 42, name = Some (ustr ''Bob''), username = None \<rparr>"

definition target_without_id :: target where
  "target_without_id = \<lparr> user_id = None, name = Some (ustr ''Bob''), username = Some (ustr ''bob'') \<rparr>"

section \<open>Properties of the varied sampler\<close>

lemmas example_defs =
  example_stdlib_def example_settings_def empty_state_def example_message_def example_user_def
  example_decoded_def ascii_lower_def
  reply_yes_def reply_yes_json_def reply_unsure_def reply_unsure_json_def
  reply_long_def reply_long_json_def reply_null_confidence_def reply_null_confidence_json_def
  reply_text_confidence_def reply_text_confidence_json_def
  reply_word_false_def reply_word_false_json_def reply_no_reason_def reply_no_reason_json_def

lemmas memory_defs =
  extract_memory_facts_def store_structured_memories_def text_or_caption_def
  text_or_caption_or_empty_def get_display_name_def summarize_message_text_def
  serialize_targets_for_prompt_def has_user_id_def py_or_empty_list_def
  add_chat_memory_def add_user_memory_def select_chat_memories_def sql_limit_def
  empty_database_def py_strip_def py_rstrip_def py_isspace_def py_slice_to_def
  fallback_note_def target_name_def ustr_def Let_def

lemmas debate_defs =
  should_trigger_auto_debate_def text_or_caption_or_empty_def text_or_caption_def
  py_strip_def py_rstrip_def py_isspace_def py_slice_to_def debate_verdict_def clip_reason_def
  try_float_def
  mark_auto_debate_reply_def passes_gates_def ELLIPSIS_def ustr_def Let_def

lemma distinct_positions_mset:
  assumes "distinct draw" "\<forall>i\<in>set draw. i < n"
  shows "mset draw \<subseteq># mset [0..<n]"
proof -
  have "set draw \<subseteq> {0..<n}" using assms(2) by auto
  then have "mset_set (set draw) \<subseteq># mset_set {0..<n}"
    by (rule subset_imp_msubset_mset_set) simp
  then show ?thesis using assms(1) by (simp add: mset_set_set)
qed

lemma random_sample_Some:
  assumes "random_sample pop k draw = Some s"
  shows "length s = k \<and> mset s \<subseteq># mset pop"
proof -
  from assms have d: "length draw = k" "distinct draw" "\<forall>i\<in>set draw. i < length pop"
    and s: "s = map (\<lambda>i. pop ! i) draw"
    by (auto simp: random_sample_def list_all_iff split: if_splits)
  have "mset draw \<subseteq># mset [0..<length pop]"
    using d(2,3) by (rule distinct_positions_mset)
  then have "image_mset (\<lambda>i. pop ! i) (mset draw) \<subseteq># image_mset (\<lambda>i. pop ! i) (mset [0..<length pop])"
    by (rule image_mset_subseteq_mono)
  then have "mset s \<subseteq># mset (map (\<lambda>i. pop ! i) [0..<length pop])"
    by (simp add: s)
  then show ?thesis using d(1) s by (simp add: map_nth)
qed

lemma random_sample_upt:
  "k \<le> length pop \<Longrightarrow> random_sample pop k [0..<k] = Some (take k pop)"
  by (auto simp: random_sample_def list_all_iff intro!: nth_equalityI)

lemma choose_varied_entries_unfold:
  assumes "0 < limit" "limit < int (length entries)"
    and k_def: "k = nat (max (MEMORY_MIN_RECENT_SHARE cfg) (limit div 2))"
  shows "choose_varied_entries cfg entries limit draw =
           (if drop k entries \<noteq> [] \<and> limit - int (length (take k entries)) > 0
            then (case random_sample (drop k entries)
                         (nat (min (limit - int (length (take k entries)))
                                   (int (length (drop k entries))))) draw of
                    None \<Rightarrow> None
                  | Some sampled \<Rightarrow> Some (take k entries @ sampled))
            else Some (take k entries))"
proof -
  have m: "min (limit div 2) (int (length entries)) = limit div 2"
    using assms(1,2) by simp
  have nn: "\<not> max (MEMORY_MIN_RECENT_SHARE cfg) (limit div 2) < 0"
    using assms(1) by simp
  have rk: "py_slice_to entries
              (max (MEMORY_MIN_RECENT_SHARE cfg) (min (limit div 2) (int (length entries))))
            = take k entries"
    unfolding py_slice_to_def m k_def using nn by (simp only: if_False)
  have rem: "py_slice_from entries (int (length (take k entries))) = drop k entries"
    unfolding py_slice_from_def by (simp add: min_def)
  have g: "\<not> (limit \<le> 0 \<or> int (length entries) \<le> limit)"
    using assms(1,2) by simp
  show ?thesis
    unfolding choose_varied_entries_def Let_def rk rem using g by (simp only: if_False)
qed

lemma choose_varied_entries_split:
  assumes "choose_varied_entries cfg entries limit draw = Some res"
    and "0 < limit" "limit < int (length entries)"
  shows "\<exists>sampled. res = take (nat (max (MEMORY_MIN_RECENT_SHARE cfg) (limit div 2))) entries @ sampled
           \<and> mset sampled \<subseteq># mset (drop (nat (max (MEMORY_MIN_RECENT_SHARE cfg) (limit div 2))) entries)
           \<and> int (length sampled) = max 0 (limit - max (MEMORY_MIN_RECENT_SHARE cfg) (limit div 2))"
proof -
  define k where "k = nat (max (MEMORY_MIN_RECENT_SHARE cfg) (limit div 2))"
  have "0 \<le> limit div 2" using assms(2) by simp
  then have "0 \<le> max (MEMORY_MIN_RECENT_SHARE cfg) (limit div 2)" by linarith
  then have ik: "int k = max (MEMORY_MIN_RECENT_SHARE cfg) (limit div 2)"
    unfolding k_def by (rule int_nat_eq[THEN trans, OF if_P])
  note u = choose_varied_entries_unfold[OF assms(2,3) k_def, of draw]
  show ?thesis
  proof (cases "drop k entries \<noteq> [] \<and> limit - int (length (take k entries)) > 0")
    case True
    then have kl: "k < length entries" by simp
    then have lt: "length (take k entries) = k" by simp
    have "choose_varied_entries cfg entries limit draw =
            (case random_sample (drop k entries)
                         (nat (min (limit - int (length (take k entries)))
                                   (int (length (drop k entries))))) draw of
                    None \<Rightarrow> None
                  | Some sampled \<Rightarrow> Some (take k entries @ sampled))"
      unfolding u using True by (rule if_P)
    with assms(1) obtain sampled where
      rs: "random_sample (drop k entries)
             (nat (min (limit - int (length (take k entries)))
                       (int (length (drop k entries))))) draw = Some sampled"
      and r: "res = take k entries @ sampled"
      by (auto split: option.splits)
    from random_sample_Some[OF rs] have
      l: "length sampled = nat (min (limit - int (length (take k entries))) (int (length (drop k entries))))"
      and ms: "mset sampled \<subseteq># mset (drop k entries)" by auto
    have "int (length sampled) = max 0 (limit - int k)"
      using l True kl assms(3) unfolding lt by (simp add: min_def max_def)
    then show ?thesis using r ms unfolding ik k_def[symmetric] by blast
  next
    case False
    have "choose_varied_entries cfg entries limit draw = Some (take k entries)"
      unfolding u using False by (rule if_not_P)
    with assms(1) have r: "res = take k entries" by simp
    have "max 0 (limit - int k) = 0"
    proof (cases "k < length entries")
      case True
      then show ?thesis using False by simp
    next
      case False
      then show ?thesis using assms(3) by simp
    qed
    then show ?thesis using r unfolding ik k_def[symmetric] by simp
  qed
qed

lemma choose_varied_entries_outcome:
  "\<exists>draw res. choose_varied_entries cfg entries limit draw = Some res"
proof (cases "limit \<le> 0 \<or> int (length entries) \<le> limit")
  case True
  then show ?thesis by (auto simp: choose_varied_entries_def)
next
  case False
  define rk where "rk = py_slice_to entries
              (max (MEMORY_MIN_RECENT_SHARE cfg) (min (limit div 2) (int (length entries))))"
  define rem where "rem = py_slice_from entries (int (length rk))"
  define k where "k = nat (min (limit - int (length rk)) (int (length rem)))"
  have "k \<le> length rem" by (simp add: k_def)
  then have "random_sample rem k [0..<k] = Some (take k rem)" by (rule random_sample_upt)
  then have "\<exists>res. choose_varied_entries cfg entries limit [0..<k] = Some res"
    using False by (simp add: choose_varied_entries_def Let_def rk_def[symmetric] rem_def[symmetric] k_def[symmetric])
  then show ?thesis by blast
qed


lemma choose_varied_entries_small:
  "limit \<le> 0 \<or> int (length entries) \<le> limit \<Longrightarrow>
     choose_varied_entries cfg entries limit draw = Some entries"
  unfolding choose_varied_entries_def by (rule if_P)

lemma choose_varied_entries_front:
  assumes "choose_varied_entries cfg entries limit draw = Some res"
    and "limit < int (length entries)"
  shows "take (nat (MEMORY_MIN_RECENT_SHARE cfg)) res
           = take (nat (MEMORY_MIN_RECENT_SHARE cfg)) entries"
proof (cases "limit \<le> 0")
  case True
  then have "choose_varied_entries cfg entries limit draw = Some entries"
    by (simp add: choose_varied_entries_small)
  with assms(1) show ?thesis by simp
next
  case False
  then have pos: "0 < limit" by simp
  define k where "k = nat (max (MEMORY_MIN_RECENT_SHARE cfg) (limit div 2))"
  define m where "m = nat (MEMORY_MIN_RECENT_SHARE cfg)"
  have mk: "m \<le> k" unfolding m_def k_def by simp
  from choose_varied_entries_split[OF assms(1) pos assms(2)] obtain sampled where
    r: "res = take k entries @ sampled" and ms: "mset sampled \<subseteq># mset (drop k entries)"
    unfolding k_def by blast
  show ?thesis
  proof (cases "k < length entries")
    case True
    then have "take m res = take m (take k entries)"
      using mk unfolding r by simp
    also have "\<dots> = take m entries" using mk by (simp add: min_def)
    finally show ?thesis unfolding m_def .
  next
    case False
    then have "sampled = []" using ms by simp
    then have "res = entries" using False unfolding r by simp
    then show ?thesis by simp
  qed
qed

text \<open>
  C6. \<open>choose_varied_entries(entries, limit)\<close> returns \<open>entries\<close> unchanged whenever
  \<open>limit \<le> 0\<close> or \<open>len(entries) \<le> limit\<close>; whenever \<open>len(entries) > limit\<close>, every
  result starts with the \<open>MEMORY_MIN_RECENT_SHARE\<close> newest (front) entries of the
  input (all of them when the input is shorter than that); and a result exists for
  every input.
\<close>

theorem choose_varied_entries_identity_and_recent:
  "(limit \<le> 0 \<or> int (length entries) \<le> limit \<longrightarrow>
      choose_varied_entries cfg entries limit draw = Some entries)
   \<and> (limit < int (length entries) \<and> choose_varied_entries cfg entries limit draw = Some res \<longrightarrow>
      take (nat (MEMORY_MIN_RECENT_SHARE cfg)) res
        = take (nat (MEMORY_MIN_RECENT_SHARE cfg)) entries)
   \<and> (\<exists>d r. choose_varied_entries cfg entries limit d = Some r)"
  using choose_varied_entries_small[of limit entries cfg draw]
    choose_varied_entries_front[of cfg entries limit draw res]
    choose_varied_entries_outcome[of cfg entries limit]
  by blast

theorem choose_varied_entries_identity_and_recent_witness:
  "choose_varied_entries example_settings [1, 2, 3, 4, 5, 6 :: nat] 4 [0, 2] = Some [1, 2, 3, 5]
   \<and> take (nat (MEMORY_MIN_RECENT_SHARE example_settings)) [1, 2, 3, 5 :: nat]
       = take (nat (MEMORY_MIN_RECENT_SHARE example_settings)) [1, 2, 3, 4, 5, 6]
   \<and> choose_varied_entries example_settings [1, 2, 3 :: nat] 4 [] = Some [1, 2, 3]"
proof -
  have e: "choose_varied_entries example_settings [1, 2, 3, 4, 5, 6 :: nat] 4 [0, 2]
             = Some [1, 2, 3, 5]"
    by (simp add: choose_varied_entries_def example_settings_def py_slice_to_def
        py_slice_from_def random_sample_def Let_def)
  have l: "(4::int) < int (length [1, 2, 3, 4, 5, 6 :: nat])" by simp
  have s: "int (length [1, 2, 3 :: nat]) \<le> 4" by simp
  from choose_varied_entries_identity_and_recent
         [of 4 "[1, 2, 3, 4, 5, 6 :: nat]" example_settings "[0, 2]" "[1, 2, 3, 5]"]
       choose_varied_entries_identity_and_recent
         [of 4 "[1, 2, 3 :: nat]" example_settings "[]" "[]"]
       e l s
  show ?thesis by blast
qed

text \<open>
  C7, as the claim states it, fails when \<open>MEMORY_MIN_RECENT_SHARE\<close> exceeds the
  limit: with a share of 2 and a limit of 1, three entries give a result of two
  elements, not one.
\<close>

theorem choose_varied_entries_exact_limit_counterexample:
  "choose_varied_entries example_settings [10, 20, 30 :: nat] 1 [] = Some [10, 20]
   \<and> 0 < (1::int) \<and> (1::int) < int (length [10, 20, 30 :: nat])
   \<and> length [10, 20 :: nat] \<noteq> nat 1"
  by (simp add: choose_varied_entries_def example_settings_def py_slice_to_def
      py_slice_from_def Let_def)

text \<open>
  C7, amended. For \<open>len(entries) > limit > 0\<close> and
  \<open>MEMORY_MIN_RECENT_SHARE \<le> limit\<close>, every result of \<open>choose_varied_entries\<close> is the
  front block of \<open>max(MEMORY_MIN_RECENT_SHARE, min(limit // 2, len(entries)))\<close>
  entries followed by entries sampled without replacement from the older ones, it
  is a sub-multiset of \<open>entries\<close>, and it has exactly \<open>limit\<close> elements.
\<close>

theorem choose_varied_entries_budget:
  assumes "0 < limit" and "limit < int (length entries)"
    and "MEMORY_MIN_RECENT_SHARE cfg \<le> limit"
    and "choose_varied_entries cfg entries limit draw = Some res"
  shows "\<exists>sampled.
           res = take (nat (max (MEMORY_MIN_RECENT_SHARE cfg)
                               (min (limit div 2) (int (length entries))))) entries @ sampled
           \<and> mset sampled \<subseteq># mset (drop (nat (max (MEMORY_MIN_RECENT_SHARE cfg)
                               (min (limit div 2) (int (length entries))))) entries)
           \<and> mset res \<subseteq># mset entries
           \<and> length res = nat limit"
proof -
  define k where "k = nat (max (MEMORY_MIN_RECENT_SHARE cfg) (limit div 2))"
  have m: "min (limit div 2) (int (length entries)) = limit div 2"
    using assms(1,2) by simp
  have "0 \<le> limit div 2" using assms(1) by simp
  then have nn: "0 \<le> max (MEMORY_MIN_RECENT_SHARE cfg) (limit div 2)" by linarith
  have "limit div 2 \<le> limit" using assms(1) by simp
  then have le: "max (MEMORY_MIN_RECENT_SHARE cfg) (limit div 2) \<le> limit"
    using assms(3) by simp
  have ik: "int k = max (MEMORY_MIN_RECENT_SHARE cfg) (limit div 2)"
    unfolding k_def using nn by simp
  have kl: "k < length entries" using ik le assms(2) by linarith
  from choose_varied_entries_split[OF assms(4) assms(1) assms(2)] obtain sampled where
    r: "res = take k entries @ sampled"
    and ms: "mset sampled \<subseteq># mset (drop k entries)"
    and ls: "int (length sampled) = max 0 (limit - max (MEMORY_MIN_RECENT_SHARE cfg) (limit div 2))"
    unfolding k_def by blast
  have "int (length sampled) = limit - int k" using ls le ik by simp
  then have len: "length res = nat limit" using kl unfolding r by simp
  have "mset (take k entries) + mset sampled \<subseteq># mset (take k entries) + mset (drop k entries)"
    using ms by simp
  also have "\<dots> = mset entries" by (simp flip: mset_append)
  finally have sub: "mset res \<subseteq># mset entries" unfolding r by simp
  show ?thesis unfolding m k_def[symmetric] using r ms sub len by blast
qed

theorem choose_varied_entries_budget_witness:
  "choose_varied_entries example_settings [1, 2, 3, 4, 5, 6 :: nat] 4 [3, 1] = Some [1, 2, 6, 4]
   \<and> (\<exists>sampled. [1, 2, 6, 4 :: nat] = take (nat (max (MEMORY_MIN_RECENT_SHARE example_settings)
                    (min (4 div 2) (int (length [1, 2, 3, 4, 5, 6 :: nat]))))) [1, 2, 3, 4, 5, 6] @ sampled
         \<and> mset sampled \<subseteq># mset (drop (nat (max (MEMORY_MIN_RECENT_SHARE example_settings)
                    (min (4 div 2) (int (length [1, 2, 3, 4, 5, 6 :: nat]))))) [1, 2, 3, 4, 5, 6])
         \<and> mset [1, 2, 6, 4 :: nat] \<subseteq># mset [1, 2, 3, 4, 5, 6]
         \<and> length [1, 2, 6, 4 :: nat] = nat 4)"
proof -
  have e: "choose_varied_entries example_settings [1, 2, 3, 4, 5, 6 :: nat] 4 [3, 1]
             = Some [1, 2, 6, 4]"
    by (simp add: choose_varied_entries_def example_settings_def py_slice_to_def
        py_slice_from_def random_sample_def Let_def)
  have h: "(0::int) < 4" "(4::int) < int (length [1, 2, 3, 4, 5, 6 :: nat])"
    "MEMORY_MIN_RECENT_SHARE example_settings \<le> 4"
    by (simp_all add: example_settings_def)
  from choose_varied_entries_budget[OF h e] e show ?thesis by blast
qed


section \<open>Properties of the debate decision engine\<close>

lemma should_trigger_rejected:
  "\<not> passes_gates cfg st now message \<Longrightarrow>
     should_trigger_auto_debate lib cfg st now call_openrouter message targets = Inr (False, JNull)"
  by (auto simp: passes_gates_def should_trigger_auto_debate_def Let_def split: option.splits)

lemma should_trigger_passed:
  assumes "passes_gates cfg st now message"
    and "\<forall>req. call_openrouter req = Some response"
  shows "should_trigger_auto_debate lib cfg st now call_openrouter message targets =
           (if response = [] then Inr (False, JNull) else decide lib cfg response)"
  using assms
  by (auto simp: passes_gates_def should_trigger_auto_debate_def decide_def Let_def
      split: option.splits)

lemma should_trigger_cases:
  "should_trigger_auto_debate lib cfg st now call_openrouter message targets = Inr (False, JNull)
   \<or> (\<exists>req response. call_openrouter req = Some response \<and> response \<noteq> []
        \<and> should_trigger_auto_debate lib cfg st now call_openrouter message targets
            = decide lib cfg response)"
  by (auto simp: should_trigger_auto_debate_def decide_def Let_def split: option.splits)


lemma cooldown_blocks_gates:
  assumes "0 < t" and "t' - t < AUTO_DEBATE_COOLDOWN cfg"
  shows "\<not> passes_gates cfg (mark_auto_debate_reply st t (chat_id message)) t' message"
  using assms by (simp add: passes_gates_def mark_auto_debate_reply_def)

lemma verdict_structured:
  assumes "json_loads lib response = Some (JObj kvs)" and "kvs \<noteq> []"
  shows "debate_verdict lib response =
           (case try_float lib (case map_of kvs (ustr ''confidence'') of
                                  None \<Rightarrow> JInt 0 | Some v \<Rightarrow> v) of
              Inl e \<Rightarrow> Inl e
            | Inr confidence \<Rightarrow>
                Inr (py_truthy (case map_of kvs (ustr ''should_reply'') of
                                  None \<Rightarrow> JNull | Some v \<Rightarrow> v),
                     confidence,
                     (case map_of kvs (ustr ''reason'') of None \<Rightarrow> JNull | Some v \<Rightarrow> v)))"
  using assms by (simp add: debate_verdict_def Let_def split: sum.splits)

lemma try_float_cases:
  "try_float lib c =
     (if py_float lib c = Inl OverflowError then Inl OverflowError
      else Inr (case py_float lib c of Inr x \<Rightarrow> x | Inl e \<Rightarrow> 0))"
proof (cases "py_float lib c")
  case (Inl e)
  have "e = TypeError \<or> e = ValueError \<or> e = OverflowError"
    using Inl by (cases c) (auto split: if_splits option.splits)
  then show ?thesis using Inl by (auto simp: try_float_def)
next
  case (Inr x)
  then show ?thesis by (simp add: try_float_def)
qed

lemma clip_reason_ok:
  assumes "\<not> py_truthy reason0 \<or> (\<exists>r. reason0 = JStr r)"
  shows "\<exists>reason. clip_reason cfg reason0 = Inr reason"
  using assms unfolding clip_reason_def Let_def by (auto split: if_splits)

lemma verdict_heuristic:
  assumes "case json_loads lib response of None \<Rightarrow> True | Some v \<Rightarrow> \<not> py_truthy v"
  shows "debate_verdict lib response =
           (let affirmative = (py_in (ustr ''true'') (str_lower lib response)
                               \<or> py_in (ustr ''yes'') (str_lower lib response))
            in Inr (affirmative, if affirmative then 1 else 0,
                    if affirmative then JStr (py_strip response) else JNull))"
  using assms by (auto simp: debate_verdict_def Let_def split: option.splits)

lemma rstrip_length: "length (py_rstrip s) \<le> length s"
  unfolding py_rstrip_def using length_dropWhile_le[of py_isspace "rev s"] by simp

lemma rstrip_no_trailing_space:
  "s \<noteq> [] \<Longrightarrow> \<not> py_isspace (last s) \<Longrightarrow> py_rstrip s = s"
  unfolding py_rstrip_def by (cases s rule: rev_cases) simp_all

lemma clip_reason_str:
  assumes "clip_reason cfg (JStr r) = Inr (JStr out)"
    and "0 \<le> AUTO_DEBATE_REASON_MAX_CHARS cfg"
  shows "(AUTO_DEBATE_REASON_MAX_CHARS cfg < int (length (py_strip r)) \<longrightarrow>
            out = py_rstrip (take (nat (AUTO_DEBATE_REASON_MAX_CHARS cfg)) (py_strip r)) @ ELLIPSIS)
         \<and> (int (length (py_strip r)) \<le> AUTO_DEBATE_REASON_MAX_CHARS cfg \<longrightarrow> out = py_strip r)"
proof (cases "r = []")
  case True
  then show ?thesis using assms
    by (simp add: clip_reason_def py_strip_def py_rstrip_def)
next
  case False
  then show ?thesis using assms
    by (auto simp: clip_reason_def py_slice_to_def Let_def split: if_splits)
qed

lemma clip_reason_str_total: "\<exists>reason. clip_reason cfg (JStr r) = Inr (JStr reason)"
  unfolding clip_reason_def Let_def by (simp split: if_splits)

lemma decide_reason_str:
  assumes "decide lib cfg response = Inr (d, JStr out)"
  shows "\<exists>sr conf r. debate_verdict lib response = Inr (sr, conf, JStr r)
           \<and> clip_reason cfg (JStr r) = Inr (JStr out)"
proof -
  from assms obtain sr conf r0 where v: "debate_verdict lib response = Inr (sr, conf, r0)"
    by (auto simp: decide_def split: sum.splits)
  with assms have c: "clip_reason cfg r0 = Inr (JStr out)"
    by (auto simp: decide_def split: sum.splits if_splits)
  then obtain r where "r0 = JStr r"
    by (cases r0) (auto simp: clip_reason_def split: if_splits)
  with v c show ?thesis by blast
qed


lemma should_trigger_cong_verdict:
  assumes "\<forall>req. call_openrouter req = Some response"
    and "debate_verdict lib response = debate_verdict lib' response"
  shows "should_trigger_auto_debate lib cfg st now call_openrouter message targets
         = should_trigger_auto_debate lib' cfg st now call_openrouter message targets"
proof (cases "passes_gates cfg st now message")
  case True
  show ?thesis
    unfolding should_trigger_passed[OF True assms(1)] decide_def assms(2) ..
next
  case False
  then show ?thesis by (simp add: should_trigger_rejected)
qed



text \<open>
  C2. \<open>time.time()\<close> is the number of seconds since the epoch, so the time \<open>t\<close>
  that \<open>mark_auto_debate_reply(chat_id)\<close> records is positive. Then for every
  message of the same conversation evaluated at a time \<open>t'\<close> with
  \<open>t' - t < AUTO_DEBATE_COOLDOWN\<close>, \<open>should_trigger_auto_debate\<close> returns
  \<open>(False, None)\<close>, with every oracle: the result does not depend on what the oracle
  would answer. The witness is the scenario of two qualifying messages 10 seconds
  apart under a 60-second window: the first triggers, the second does not.
\<close>

theorem cooldown_rejects_before_oracle:
  assumes "0 < t" and "t' - t < AUTO_DEBATE_COOLDOWN cfg"
  shows "should_trigger_auto_debate lib cfg (mark_auto_debate_reply st t (chat_id message)) t'
           call_openrouter message targets = Inr (False, JNull)"
  using cooldown_blocks_gates[OF assms] by (rule should_trigger_rejected)

theorem cooldown_rejects_before_oracle_witness:
  "should_trigger_auto_debate (example_stdlib example_decoded) example_settings empty_state 1000
     (\<lambda>req. Some reply_yes) example_message [] = Inr (True, JStr (ustr ''nonsense''))
   \<and> (0 :: real) < 1000 \<and> (1010 :: real) - 1000 < AUTO_DEBATE_COOLDOWN example_settings
   \<and> should_trigger_auto_debate (example_stdlib example_decoded) example_settings
        (mark_auto_debate_reply empty_state 1000 (chat_id example_message)) 1010
        (\<lambda>req. Some reply_yes) example_message [] = Inr (False, JNull)"
proof -
  have h: "(0 :: real) < 1000" "(1010 :: real) - 1000 < AUTO_DEBATE_COOLDOWN example_settings"
    by (simp_all add: example_settings_def)
  have f: "should_trigger_auto_debate (example_stdlib example_decoded) example_settings
             empty_state 1000 (\<lambda>req. Some reply_yes) example_message []
           = Inr (True, JStr (ustr ''nonsense''))"
    by (simp add: example_defs debate_defs)
  from cooldown_rejects_before_oracle[OF h] f h show ?thesis by blast
qed

text \<open>
  C3, as the claim states it, fails: \<open>should_reply\<close> is read with \<open>bool()\<close>, so
  an answer whose \<open>should_reply\<close> is not \<open>true\<close> but the string \<open>false\<close> triggers
  with confidence 0.9 under the threshold 0.6.
\<close>

theorem string_should_reply_triggers_counterexample:
  "passes_gates example_settings empty_state 1000 example_message
   \<and> json_loads (example_stdlib example_decoded) reply_word_false
       = Some (JObj [(ustr ''should_reply'', JStr (ustr ''false'')),
            (ustr ''confidence'', JFloat (9 / 10)), (ustr ''reason'', JStr (ustr ''nonsense''))])
   \<and> should_trigger_auto_debate (example_stdlib example_decoded) example_settings empty_state 1000
        (\<lambda>req. Some reply_word_false) example_message []
       = Inr (True, JStr (ustr ''nonsense''))"
  by (simp add: example_defs debate_defs)

text \<open>
  C3, amended. When all gates pass and the oracle's answer parses to a non-empty
  object whose \<open>reason\<close> is absent, falsy or a string and on whose \<open>confidence\<close>
  \<open>float\<close> does not overflow, \<open>should_trigger_auto_debate\<close> returns a trigger
  \<open>(True, reason)\<close> if and only if \<open>should_reply\<close> is truthy and the confidence
  (\<open>float\<close> of the field, 0 when the field is missing or \<open>float\<close> rejects it) is at
  least \<open>AUTO_DEBATE_CONFIDENCE_THRESHOLD\<close>; otherwise it returns \<open>(False, None)\<close>.
  The reason returned is the stripped and cut \<open>reason\<close> of the answer. The witness
  has \<open>should_reply = true\<close> with confidence 0.4 under the threshold 0.6, and an
  answer without a \<open>reason\<close>.
\<close>

theorem trigger_iff_truthy_reply_and_confidence:
  assumes "passes_gates cfg st now message"
    and "\<forall>req. call_openrouter req = Some response" and "response \<noteq> []"
    and "json_loads lib response = Some (JObj kvs)" and "kvs \<noteq> []"
    and "should_reply = (case map_of kvs (ustr ''should_reply'') of None \<Rightarrow> JNull | Some v \<Rightarrow> v)"
    and "c = (case map_of kvs (ustr ''confidence'') of None \<Rightarrow> JInt 0 | Some v \<Rightarrow> v)"
    and "reason0 = (case map_of kvs (ustr ''reason'') of None \<Rightarrow> JNull | Some v \<Rightarrow> v)"
    and "py_float lib c \<noteq> Inl OverflowError"
    and "\<not> py_truthy reason0 \<or> (\<exists>r. reason0 = JStr r)"
  shows "\<exists>reason. clip_reason cfg reason0 = Inr reason
           \<and> should_trigger_auto_debate lib cfg st now call_openrouter message targets
               = (if py_truthy should_reply
                     \<and> (case py_float lib c of Inr x \<Rightarrow> x | Inl e \<Rightarrow> 0)
                          \<ge> AUTO_DEBATE_CONFIDENCE_THRESHOLD cfg
                  then Inr (True, reason) else Inr (False, JNull))"
proof -
  obtain reason where k: "clip_reason cfg reason0 = Inr reason"
    using clip_reason_ok[OF assms(10)] by blast
  have t: "try_float lib c = Inr (case py_float lib c of Inr x \<Rightarrow> x | Inl e \<Rightarrow> 0)"
    unfolding try_float_cases using assms(9) by simp
  have v: "debate_verdict lib response
             = Inr (py_truthy should_reply,
                    (case py_float lib c of Inr x \<Rightarrow> x | Inl e \<Rightarrow> 0), reason0)"
    unfolding verdict_structured[OF assms(4,5)] assms(6-8)[symmetric] t by simp
  have "should_trigger_auto_debate lib cfg st now call_openrouter message targets
          = decide lib cfg response"
    unfolding should_trigger_passed[OF assms(1,2)] using assms(3) by simp
  also have "\<dots> = (if py_truthy should_reply
                     \<and> (case py_float lib c of Inr x \<Rightarrow> x | Inl e \<Rightarrow> 0)
                          \<ge> AUTO_DEBATE_CONFIDENCE_THRESHOLD cfg
                  then Inr (True, reason) else Inr (False, JNull))"
    unfolding decide_def v using k by simp
  finally show ?thesis using k by blast
qed

theorem trigger_iff_truthy_reply_and_confidence_witness:
  "should_trigger_auto_debate (example_stdlib example_decoded) example_settings empty_state 1000
     (\<lambda>req. Some reply_unsure) example_message [] = Inr (False, JNull)
   \<and> should_trigger_auto_debate (example_stdlib example_decoded) example_settings empty_state 1000
     (\<lambda>req. Some reply_no_reason) example_message [] = Inr (True, JNull)"
proof -
  let ?lib = "example_stdlib example_decoded"
  let ?ku = "[(ustr ''should_reply'', JBool True),
       (ustr ''confidence'', JFloat (4 / 10)), (ustr ''reason'', JStr (ustr ''nonsense''))]"
  let ?kn = "[(ustr ''should_reply'', JBool True), (ustr ''confidence'', JFloat (9 / 10))]"
  have g: "passes_gates example_settings empty_state 1000 example_message"
    by (simp add: example_defs debate_defs)
  have u: "\<forall>req. (\<lambda>req. Some reply_unsure) (req :: oracle_request) = Some reply_unsure"
    "reply_unsure \<noteq> []" "json_loads ?lib reply_unsure = Some (JObj ?ku)" "?ku \<noteq> []"
    "JBool True = (case map_of ?ku (ustr ''should_reply'') of None \<Rightarrow> JNull | Some v \<Rightarrow> v)"
    "JFloat (4 / 10) = (case map_of ?ku (ustr ''confidence'') of None \<Rightarrow> JInt 0 | Some v \<Rightarrow> v)"
    "JStr (ustr ''nonsense'')
       = (case map_of ?ku (ustr ''reason'') of None \<Rightarrow> JNull | Some v \<Rightarrow> v)"
    "py_float ?lib (JFloat (4 / 10)) \<noteq> Inl OverflowError"
    "\<not> py_truthy (JStr (ustr ''nonsense'')) \<or> (\<exists>r. JStr (ustr ''nonsense'') = JStr r)"
    by (simp_all add: example_defs ustr_def)
  have n: "\<forall>req. (\<lambda>req. Some reply_no_reason) (req :: oracle_request) = Some reply_no_reason"
    "reply_no_reason \<noteq> []" "json_loads ?lib reply_no_reason = Some (JObj ?kn)" "?kn \<noteq> []"
    "JBool True = (case map_of ?kn (ustr ''should_reply'') of None \<Rightarrow> JNull | Some v \<Rightarrow> v)"
    "JFloat (9 / 10) = (case map_of ?kn (ustr ''confidence'') of None \<Rightarrow> JInt 0 | Some v \<Rightarrow> v)"
    "JNull = (case map_of ?kn (ustr ''reason'') of None \<Rightarrow> JNull | Some v \<Rightarrow> v)"
    "py_float ?lib (JFloat (9 / 10)) \<noteq> Inl OverflowError"
    "\<not> py_truthy JNull \<or> (\<exists>r. JNull = JStr r)"
    by (simp_all add: example_defs ustr_def)
  have a: "\<not> (py_truthy (JBool True)
              \<and> (case py_float ?lib (JFloat (4 / 10)) of Inr x \<Rightarrow> x | Inl e \<Rightarrow> 0)
                   \<ge> AUTO_DEBATE_CONFIDENCE_THRESHOLD example_settings)"
    by (simp add: example_settings_def)
  have b: "py_truthy (JBool True)
              \<and> (case py_float ?lib (JFloat (9 / 10)) of Inr x \<Rightarrow> x | Inl e \<Rightarrow> 0)
                   \<ge> AUTO_DEBATE_CONFIDENCE_THRESHOLD example_settings"
    "clip_reason example_settings JNull = Inr JNull"
    by (simp_all add: example_settings_def clip_reason_def)
  from trigger_iff_truthy_reply_and_confidence[OF g u] a
  have r1: "should_trigger_auto_debate ?lib example_settings empty_state 1000
             (\<lambda>req. Some reply_unsure) example_message [] = Inr (False, JNull)"
    by auto
  from trigger_iff_truthy_reply_and_confidence[OF g n] b
  have r2: "should_trigger_auto_debate ?lib example_settings empty_state 1000
             (\<lambda>req. Some reply_no_reason) example_message [] = Inr (True, JNull)"
    by auto
  from r1 r2 show ?thesis by blast
qed

text \<open>
  C8, as the claim states it, fails: a reason of 12 characters under a cap of 10
  is returned as its first 10 characters followed by the ellipsis, 11 characters.
\<close>

theorem reason_cut_length_counterexample:
  "should_trigger_auto_debate (example_stdlib example_decoded) example_settings empty_state 1000
     (\<lambda>req. Some reply_long) example_message []
     = Inr (True, JStr (ustr ''abcdefghij'' @ ELLIPSIS))
   \<and> AUTO_DEBATE_REASON_MAX_CHARS example_settings < int (length (ustr ''abcdefghijkl''))
   \<and> int (length (ustr ''abcdefghij'' @ ELLIPSIS)) \<noteq> AUTO_DEBATE_REASON_MAX_CHARS example_settings"
  by (simp add: example_defs debate_defs)


text \<open>
  C8, amended. Whenever \<open>should_trigger_auto_debate\<close> returns a string as the
  reason, with a cap \<open>AUTO_DEBATE_REASON_MAX_CHARS \<ge> 0\<close>: the oracle's reason \<open>r\<close> is
  stripped first; if the stripped reason is longer than the cap, the result is its
  first cap characters with trailing whitespace removed, followed by the ellipsis
  marker, so at most cap + 1 characters, and exactly cap + 1 when the cut does not
  end in whitespace; otherwise the result is the stripped reason.
\<close>

theorem reason_truncation:
  assumes "should_trigger_auto_debate lib cfg st now call_openrouter message targets
             = Inr (decision, JStr out)"
    and "0 \<le> AUTO_DEBATE_REASON_MAX_CHARS cfg"
  shows "\<exists>req response should_reply confidence r.
           call_openrouter req = Some response
           \<and> debate_verdict lib response = Inr (should_reply, confidence, JStr r)
           \<and> (AUTO_DEBATE_REASON_MAX_CHARS cfg < int (length (py_strip r)) \<longrightarrow>
                out = py_rstrip (take (nat (AUTO_DEBATE_REASON_MAX_CHARS cfg)) (py_strip r))
                        @ ELLIPSIS
                \<and> int (length out) \<le> AUTO_DEBATE_REASON_MAX_CHARS cfg + 1
                \<and> (\<not> py_isspace (py_strip r ! (nat (AUTO_DEBATE_REASON_MAX_CHARS cfg) - 1)) \<longrightarrow>
                     0 < AUTO_DEBATE_REASON_MAX_CHARS cfg \<longrightarrow>
                     int (length out) = AUTO_DEBATE_REASON_MAX_CHARS cfg + 1))
           \<and> (int (length (py_strip r)) \<le> AUTO_DEBATE_REASON_MAX_CHARS cfg \<longrightarrow>
                out = py_strip r)"
proof -
  let ?cap = "AUTO_DEBATE_REASON_MAX_CHARS cfg"
  from should_trigger_cases[of lib cfg st now call_openrouter message targets] assms(1)
  obtain req response where o: "call_openrouter req = Some response"
    and d: "decide lib cfg response = Inr (decision, JStr out)"
    by auto
  from decide_reason_str[OF d] obtain sr conf r where
    v: "debate_verdict lib response = Inr (sr, conf, JStr r)"
    and c: "clip_reason cfg (JStr r) = Inr (JStr out)" by blast
  note k = clip_reason_str[OF c assms(2)]
  have long: "int (length out) \<le> ?cap + 1
              \<and> (\<not> py_isspace (py_strip r ! (nat ?cap - 1)) \<longrightarrow> 0 < ?cap \<longrightarrow>
                   int (length out) = ?cap + 1)"
    if l: "?cap < int (length (py_strip r))"
  proof -
    let ?cut = "take (nat ?cap) (py_strip r)"
    have out: "out = py_rstrip ?cut @ ELLIPSIS" using k l by blast
    have lc: "length ?cut = nat ?cap" using l by simp
    have "length (py_rstrip ?cut) \<le> nat ?cap"
      using rstrip_length[of ?cut] lc by simp
    then have a: "int (length out) \<le> ?cap + 1"
      unfolding out ELLIPSIS_def using assms(2) by simp
    have b: "int (length out) = ?cap + 1"
      if ns: "\<not> py_isspace (py_strip r ! (nat ?cap - 1))" and pos: "0 < ?cap"
    proof -
      have ne: "?cut \<noteq> []" using lc pos by auto
      have "last ?cut = ?cut ! (nat ?cap - 1)"
        using last_conv_nth[OF ne] lc by simp
      also have "\<dots> = py_strip r ! (nat ?cap - 1)" using pos by simp
      finally have "py_rstrip ?cut = ?cut"
        using rstrip_no_trailing_space[OF ne] ns by simp
      then show ?thesis unfolding out ELLIPSIS_def using lc assms(2) by simp
    qed
    from a b show ?thesis by blast
  qed
  from o v k long show ?thesis by blast
qed

theorem reason_truncation_witness:
  "should_trigger_auto_debate (example_stdlib example_decoded) example_settings empty_state 1000
     (\<lambda>req. Some reply_long) example_message []
     = Inr (True, JStr (ustr ''abcdefghij'' @ ELLIPSIS))
   \<and> 0 \<le> AUTO_DEBATE_REASON_MAX_CHARS example_settings
   \<and> (\<exists>req response should_reply confidence r.
         (\<lambda>req. Some reply_long) (req :: oracle_request) = Some response
         \<and> debate_verdict (example_stdlib example_decoded) response
              = Inr (should_reply, confidence, JStr r)
         \<and> (AUTO_DEBATE_REASON_MAX_CHARS example_settings < int (length (py_strip r)) \<longrightarrow>
              ustr ''abcdefghij'' @ ELLIPSIS
                = py_rstrip (take (nat (AUTO_DEBATE_REASON_MAX_CHARS example_settings)) (py_strip r))
                    @ ELLIPSIS))"
proof -
  have e: "should_trigger_auto_debate (example_stdlib example_decoded) example_settings
             empty_state 1000 (\<lambda>req. Some reply_long) example_message []
           = Inr (True, JStr (ustr ''abcdefghij'' @ ELLIPSIS))"
    by (simp add: example_defs debate_defs)
  have h: "0 \<le> AUTO_DEBATE_REASON_MAX_CHARS example_settings"
    by (simp add: example_settings_def)
  from reason_truncation[OF e h] e h show ?thesis by blast
qed



text \<open>
  C9. When the gates pass and the oracle's answer is one that \<open>json.loads\<close> accepts
  and that parses to a falsy value (the empty object, \<open>null\<close>, \<open>0\<close>, the empty
  string), \<open>should_trigger_auto_debate\<close> returns what the scan of the raw answer
  gives: a trigger with the stripped and cut answer as the reason when the lowered
  answer contains \<open>true\<close> or \<open>yes\<close> and the threshold is at most 1, and
  \<open>(False, None)\<close> otherwise; the fields \<open>should_reply\<close> and \<open>confidence\<close> are not
  read. This is also the result for an answer that does not parse.
\<close>

theorem falsy_parse_takes_heuristic:
  assumes "passes_gates cfg st now message"
    and "\<forall>req. call_openrouter req = Some response" and "response \<noteq> []"
    and "json_loads lib response = Some v" and "\<not> py_truthy v"
  shows "\<exists>reason. clip_reason cfg (JStr (py_strip response)) = Inr reason
           \<and> should_trigger_auto_debate lib cfg st now call_openrouter message targets
               = (if (py_in (ustr ''true'') (str_lower lib response)
                      \<or> py_in (ustr ''yes'') (str_lower lib response))
                     \<and> AUTO_DEBATE_CONFIDENCE_THRESHOLD cfg \<le> 1
                  then Inr (True, reason) else Inr (False, JNull))
           \<and> should_trigger_auto_debate lib cfg st now call_openrouter message targets
               = should_trigger_auto_debate (lib\<lparr>json_loads := \<lambda>s. None\<rparr>) cfg st now
                   call_openrouter message targets"
proof -
  let ?affirmative = "py_in (ustr ''true'') (str_lower lib response)
                      \<or> py_in (ustr ''yes'') (str_lower lib response)"
  have a: "case json_loads lib response of None \<Rightarrow> True | Some v \<Rightarrow> \<not> py_truthy v"
    using assms(4,5) by simp
  have b: "case json_loads (lib\<lparr>json_loads := \<lambda>s. None\<rparr>) response of
             None \<Rightarrow> True | Some v \<Rightarrow> \<not> py_truthy v"
    by simp
  have same: "debate_verdict lib response
                = debate_verdict (lib\<lparr>json_loads := \<lambda>s. None\<rparr>) response"
    unfolding verdict_heuristic[OF a] verdict_heuristic[OF b] by simp
  obtain reason where k: "clip_reason cfg (JStr (py_strip response)) = Inr reason"
    using clip_reason_ok[of "JStr (py_strip response)" cfg] by blast
  have v: "debate_verdict lib response
             = Inr (?affirmative, if ?affirmative then 1 else 0,
                    if ?affirmative then JStr (py_strip response) else JNull)"
    unfolding verdict_heuristic[OF a] Let_def ..
  have n: "clip_reason cfg JNull = Inr JNull" by (simp add: clip_reason_def)
  have "should_trigger_auto_debate lib cfg st now call_openrouter message targets
          = decide lib cfg response"
    unfolding should_trigger_passed[OF assms(1,2)] using assms(3) by simp
  also have "\<dots> = (if ?affirmative \<and> AUTO_DEBATE_CONFIDENCE_THRESHOLD cfg \<le> 1
                     then Inr (True, reason) else Inr (False, JNull))"
    unfolding decide_def v using k n by simp
  finally show ?thesis
    using k should_trigger_cong_verdict[OF assms(2) same] by blast
qed

theorem falsy_parse_takes_heuristic_witness:
  "json_loads (example_stdlib example_decoded) (ustr ''{}'') = Some (JObj [])
   \<and> \<not> py_truthy (JObj [])
   \<and> json_loads (example_stdlib example_decoded) (ustr ''null'') = Some JNull
   \<and> should_trigger_auto_debate (example_stdlib example_decoded) example_settings empty_state 1000
        (\<lambda>req. Some (ustr ''{}'')) example_message [] = Inr (False, JNull)
   \<and> should_trigger_auto_debate (example_stdlib example_decoded) example_settings empty_state 1000
        (\<lambda>req. Some (ustr ''null'')) example_message [] = Inr (False, JNull)"
proof -
  let ?lib = "example_stdlib example_decoded"
  have g: "passes_gates example_settings empty_state 1000 example_message"
    by (simp add: example_defs debate_defs)
  have h: "\<forall>req. (\<lambda>req. Some (ustr ''{}'')) (req :: oracle_request) = Some (ustr ''{}'')"
    "ustr ''{}'' \<noteq> []"
    "json_loads ?lib (ustr ''{}'') = Some (JObj [])"
    "\<not> py_truthy (JObj [])"
    by (simp_all add: example_defs ustr_def)
  have i: "\<forall>req. (\<lambda>req. Some (ustr ''null'')) (req :: oracle_request) = Some (ustr ''null'')"
    "ustr ''null'' \<noteq> []"
    "json_loads ?lib (ustr ''null'') = Some JNull"
    "\<not> py_truthy JNull"
    by (simp_all add: example_defs ustr_def)
  have l: "\<not> (py_in (ustr ''true'') (str_lower ?lib (ustr ''{}''))
              \<or> py_in (ustr ''yes'') (str_lower ?lib (ustr ''{}'')))"
    "\<not> (py_in (ustr ''true'') (str_lower ?lib (ustr ''null''))
              \<or> py_in (ustr ''yes'') (str_lower ?lib (ustr ''null'')))"
    by (simp_all add: example_defs ustr_def)
  from falsy_parse_takes_heuristic[OF g h, of "[]"] l(1)
  have r1: "should_trigger_auto_debate ?lib example_settings empty_state 1000
        (\<lambda>req. Some (ustr ''{}'')) example_message [] = Inr (False, JNull)"
    by auto
  from falsy_parse_takes_heuristic[OF g i, of "[]"] l(2)
  have r2: "should_trigger_auto_debate ?lib example_settings empty_state 1000
        (\<lambda>req. Some (ustr ''null'')) example_message [] = Inr (False, JNull)"
    by auto
  from r1 r2 h(3,4) i(3) show ?thesis by blast
qed

text \<open>
  C10. The claim holds where \<open>float\<close> raises \<open>TypeError\<close> or \<open>ValueError\<close>, the two
  exceptions that line 104 catches, and for a numeric string; it fails for an
  integer beyond the range of a double: \<open>float\<close> raises \<open>OverflowError\<close>, which is
  not caught, and the exception escapes \<open>should_trigger_auto_debate\<close> instead of the
  confidence becoming 0.
\<close>

theorem huge_confidence_overflow_escapes:
  "passes_gates example_settings empty_state 1000 example_message
   \<and> json_loads (example_stdlib huge_decoded) reply_huge_confidence
       = Some (JObj [(ustr ''should_reply'', JBool True),
            (ustr ''confidence'', JInt (10 ^ 309)), (ustr ''reason'', JStr (ustr ''nonsense''))])
   \<and> py_float (example_stdlib huge_decoded) (JInt (10 ^ 309)) = Inl OverflowError
   \<and> should_trigger_auto_debate (example_stdlib huge_decoded) example_settings empty_state 1000
        (\<lambda>req. Some reply_huge_confidence) example_message [] = Inl OverflowError"
proof -
  have o: "py_float (example_stdlib huge_decoded) (JInt (10 ^ 309)) = Inl OverflowError"
    by (simp add: FLOAT_INT_BOUND_def)
  have l: "json_loads (example_stdlib huge_decoded) reply_huge_confidence
             = Some (JObj [(ustr ''should_reply'', JBool True),
                  (ustr ''confidence'', JInt (10 ^ 309)),
                  (ustr ''reason'', JStr (ustr ''nonsense''))])"
    by (simp add: example_stdlib_def huge_decoded_def reply_huge_confidence_json_def)
  have ne: "reply_huge_confidence \<noteq> []"
    by (simp add: reply_huge_confidence_def ustr_def)
  have g: "passes_gates example_settings empty_state 1000 example_message"
    by (simp add: example_defs debate_defs)
  have v: "debate_verdict (example_stdlib huge_decoded) reply_huge_confidence = Inl OverflowError"
    unfolding debate_verdict_def l using o by (simp add: try_float_def ustr_def)
  have "should_trigger_auto_debate (example_stdlib huge_decoded) example_settings empty_state 1000
          (\<lambda>req. Some reply_huge_confidence) example_message []
        = decide (example_stdlib huge_decoded) example_settings reply_huge_confidence"
    using should_trigger_passed[OF g, of "\<lambda>req. Some reply_huge_confidence"
            reply_huge_confidence "example_stdlib huge_decoded" "[]"] ne
    by simp
  also have "\<dots> = Inl OverflowError" unfolding decide_def v by simp
  finally show ?thesis using g l o by blast
qed

text \<open>
  What holds of the confidence: a missing field, or one on which \<open>float\<close> raises
  \<open>TypeError\<close> or \<open>ValueError\<close>, gives the confidence 0 and, under a positive
  threshold, no trigger; a string that \<open>float\<close> reads as \<open>x\<close> gives the confidence
  \<open>x\<close>.
\<close>

lemma confidence_zero_on_caught_error:
  assumes "\<forall>req. call_openrouter req = Some response"
    and "json_loads lib response = Some (JObj kvs)" and "kvs \<noteq> []"
    and "map_of kvs (ustr ''confidence'') = None
         \<or> (\<exists>c. map_of kvs (ustr ''confidence'') = Some c
                \<and> (py_float lib c = Inl TypeError \<or> py_float lib c = Inl ValueError))"
  shows "\<exists>should_reply reason. debate_verdict lib response = Inr (should_reply, 0, reason)"
    and "0 < AUTO_DEBATE_CONFIDENCE_THRESHOLD cfg \<Longrightarrow>
           should_trigger_auto_debate lib cfg st now call_openrouter message targets
             \<noteq> Inr (True, reason)"
proof -
  have z: "try_float lib (case map_of kvs (ustr ''confidence'') of
                            None \<Rightarrow> JInt 0 | Some v \<Rightarrow> v) = Inr 0"
  proof -
    have "\<bar>0 :: int\<bar> < FLOAT_INT_BOUND" by (simp add: FLOAT_INT_BOUND_def)
    then have "py_float lib (JInt 0) = Inr 0" by simp
    then show ?thesis using assms(4) by (auto simp: try_float_def)
  qed
  show v: "\<exists>should_reply reason. debate_verdict lib response = Inr (should_reply, 0, reason)"
    unfolding verdict_structured[OF assms(2,3)] z by simp
  show "should_trigger_auto_debate lib cfg st now call_openrouter message targets
             \<noteq> Inr (True, reason)" if t: "0 < AUTO_DEBATE_CONFIDENCE_THRESHOLD cfg"
  proof (cases "passes_gates cfg st now message")
    case True
    from v obtain sr r0 where z': "debate_verdict lib response = Inr (sr, 0, r0)" by blast
    show ?thesis
      unfolding should_trigger_passed[OF True assms(1)] decide_def z' using t
      by (simp split: sum.splits)
  next
    case False
    then show ?thesis by (simp add: should_trigger_rejected)
  qed
qed

lemma confidence_of_numeric_string:
  assumes "json_loads lib response = Some (JObj kvs)" and "kvs \<noteq> []"
    and "map_of kvs (ustr ''confidence'') = Some (JStr s)" and "float_of_str lib s = Some x"
  shows "\<exists>should_reply reason. debate_verdict lib response = Inr (should_reply, x, reason)"
  unfolding verdict_structured[OF assms(1,2)] using assms(3,4) by (simp add: try_float_def)

section \<open>Properties of the memory store\<close>

lemma sorted_ids_filter:
  "sorted_wrt (<) (map cm_id rows) \<Longrightarrow> sorted_wrt (<) (map cm_id (filter P rows))"
  by (induction rows) auto

lemma select_sorted:
  assumes "store_inv db"
  shows "select_chat_memories db c n = sql_limit n (rev (rows_of db c))"
proof -
  have "sorted_wrt (<) (map cm_id (rows_of db c))"
    using assms unfolding store_inv_def rows_of_def by (simp add: sorted_ids_filter)
  then have "sorted (map cm_id (rows_of db c))"
    by (simp add: strict_sorted_iff)
  then have "sort_key cm_id (rows_of db c) = rows_of db c"
    by (rule sort_key_id_if_sorted)
  then show ?thesis unfolding select_chat_memories_def rows_of_def by simp
qed

lemma filter_kept_suffix:
  assumes "distinct (map f xs)"
  shows "filter (\<lambda>r. f r \<in> f ` set (drop k xs)) xs = drop k xs"
proof -
  have d: "distinct (map f (take k xs) @ map f (drop k xs))"
    using assms by (simp flip: map_append)
  have a: "filter (\<lambda>r. f r \<in> f ` set (drop k xs)) (take k xs) = []"
    using d by (auto simp: filter_empty_conv)
  have b: "filter (\<lambda>r. f r \<in> f ` set (drop k xs)) (drop k xs) = drop k xs"
    by (auto simp: filter_id_conv)
  have "filter (\<lambda>r. f r \<in> f ` set (drop k xs)) (take k xs @ drop k xs) = drop k xs"
    unfolding filter_append a b by simp
  then show ?thesis by simp
qed

lemma limit_rev_ids:
  assumes "0 \<le> n"
  shows "set (map f (sql_limit n (rev xs))) = f ` set (drop (length xs - nat n) xs)"
  using assms by (simp add: sql_limit_def take_rev)

lemma last_rows_snoc:
  "drop (length (drop (length xs - n) xs @ [x]) - n) (drop (length xs - n) xs @ [x])
     = drop (length (xs @ [x]) - n) (xs @ [x])"
proof (cases "n = 0")
  case True
  then show ?thesis by simp
next
  case False
  then have "Suc (length xs) - (length xs - n + n) + (length xs - n) = Suc (length xs) - n"
    by arith
  then show ?thesis using False by simp
qed

lemma add_chat_memory_step:
  assumes inv: "store_inv db" and ne: "summary \<noteq> []"
    and lim: "0 \<le> CHAT_MEMORY_DB_LIMIT cfg"
    and db'_def: "db' = add_chat_memory cfg db c msg_id author_id author_name summary"
  shows "store_inv db'"
    and "map cm_summary (rows_of db' c) =
           drop (Suc (length (rows_of db c)) - nat (CHAT_MEMORY_DB_LIMIT cfg))
             (map cm_summary (rows_of db c)
                @ [py_slice_to summary (CHAT_MEMORY_MESSAGE_CHAR_LIMIT cfg)])"
    and "c' \<noteq> c \<Longrightarrow> rows_of db' c' = rows_of db c'"
proof -
  define new where "new = \<lparr> cm_id = Suc (chat_memories_seq db), cm_chat_id = c,
       cm_message_id = msg_id, cm_author_id = author_id, cm_author_name = author_name,
       cm_summary = py_slice_to summary (CHAT_MEMORY_MESSAGE_CHAR_LIMIT cfg) \<rparr>"
  define ins where "ins = db\<lparr> chat_memories := chat_memories db @ [new],
                               chat_memories_seq := Suc (chat_memories_seq db) \<rparr>"
  define n where "n = nat (CHAT_MEMORY_DB_LIMIT cfg)"
  define xs where "xs = rows_of ins c"
  have inv_ins: "store_inv ins"
    using inv unfolding store_inv_def ins_def new_def
    by (auto simp: sorted_wrt_append)
  have xs: "xs = rows_of db c @ [new]"
    unfolding xs_def rows_of_def ins_def new_def by simp
  have dist: "distinct (map cm_id xs)"
  proof -
    have "sorted_wrt (<) (map cm_id xs)"
      using inv_ins unfolding store_inv_def xs_def rows_of_def by (simp add: sorted_ids_filter)
    then show ?thesis by (simp add: strict_sorted_iff)
  qed
  have kept: "set (map cm_id (select_chat_memories ins c (CHAT_MEMORY_DB_LIMIT cfg)))
                = cm_id ` set (drop (length xs - n) xs)"
    unfolding select_sorted[OF inv_ins] xs_def[symmetric] n_def
    using lim by (rule limit_rev_ids)
  have db': "db' = ins\<lparr> chat_memories :=
               filter (\<lambda>r. \<not> (cm_id r \<notin> cm_id ` set (drop (length xs - n) xs) \<and> cm_chat_id r = c))
                 (chat_memories ins) \<rparr>"
    unfolding db'_def add_chat_memory_def Let_def using ne kept
    by (simp add: ins_def new_def)
  show "store_inv db'"
    using inv_ins unfolding db' store_inv_def by (simp add: sorted_ids_filter)
  have "rows_of db' c = filter (\<lambda>r. cm_id r \<in> cm_id ` set (drop (length xs - n) xs)) xs"
    unfolding db' rows_of_def xs_def by (auto intro: filter_cong)
  also have "\<dots> = drop (length xs - n) xs" using dist by (rule filter_kept_suffix)
  finally have "rows_of db' c = drop (length xs - n) xs" .
  then have "map cm_summary (rows_of db' c) = drop (length xs - n) (map cm_summary xs)"
    by (simp add: drop_map)
  moreover have "map cm_summary xs = map cm_summary (rows_of db c)
                   @ [py_slice_to summary (CHAT_MEMORY_MESSAGE_CHAR_LIMIT cfg)]"
    unfolding xs new_def by simp
  moreover have "length xs = Suc (length (rows_of db c))" unfolding xs by simp
  ultimately show "map cm_summary (rows_of db' c) =
           drop (Suc (length (rows_of db c)) - nat (CHAT_MEMORY_DB_LIMIT cfg))
             (map cm_summary (rows_of db c)
                @ [py_slice_to summary (CHAT_MEMORY_MESSAGE_CHAR_LIMIT cfg)])"
    unfolding n_def by simp
  show "rows_of db' c' = rows_of db c'" if "c' \<noteq> c"
  proof -
    have "rows_of db' c' = rows_of ins c'"
      unfolding db' rows_of_def using that by (auto intro: filter_cong)
    also have "\<dots> = rows_of db c'"
      unfolding rows_of_def ins_def new_def using that by simp
    finally show ?thesis .
  qed
qed


lemma inserted_summaries_snoc:
  "inserted_summaries cfg c (calls @ [k]) =
     (if call_chat_id k = c \<and> call_summary k \<noteq> []
      then inserted_summaries cfg c calls
             @ [py_slice_to (call_summary k) (CHAT_MEMORY_MESSAGE_CHAR_LIMIT cfg)]
      else inserted_summaries cfg c calls)"
  by (simp add: inserted_summaries_def)

lemma add_chat_memories_snoc:
  "add_chat_memories cfg db (calls @ [k]) =
     add_chat_memory cfg (add_chat_memories cfg db calls) (call_chat_id k) (call_message_id k)
       (call_author_id k) (call_author_name k) (call_summary k)"
  by (simp add: add_chat_memories_def add_chat_memory_call_def)

lemma add_chat_memories_rows:
  assumes lim: "0 \<le> CHAT_MEMORY_DB_LIMIT cfg"
  shows "store_inv (add_chat_memories cfg empty_database calls)
         \<and> (\<forall>c. map cm_summary (rows_of (add_chat_memories cfg empty_database calls) c)
                  = drop (length (inserted_summaries cfg c calls) - nat (CHAT_MEMORY_DB_LIMIT cfg))
                      (inserted_summaries cfg c calls))"
proof (induction calls rule: rev_induct)
  case Nil
  show ?case
    by (simp add: add_chat_memories_def empty_database_def store_inv_def rows_of_def
        inserted_summaries_def)
next
  case (snoc k calls)
  define db where "db = add_chat_memories cfg empty_database calls"
  define db' where "db' = add_chat_memories cfg empty_database (calls @ [k])"
  define n where "n = nat (CHAT_MEMORY_DB_LIMIT cfg)"
  have inv: "store_inv db"
    and rows: "\<And>c. map cm_summary (rows_of db c)
                  = drop (length (inserted_summaries cfg c calls) - n) (inserted_summaries cfg c calls)"
    using snoc unfolding db_def n_def by auto
  have step: "db' = add_chat_memory cfg db (call_chat_id k) (call_message_id k)
                      (call_author_id k) (call_author_name k) (call_summary k)"
    unfolding db'_def db_def by (rule add_chat_memories_snoc)
  show ?case
  proof (cases "call_summary k = []")
    case True
    then have "db' = db" unfolding step by (simp add: add_chat_memory_def)
    then show ?thesis
      using inv rows True unfolding db'_def[symmetric] n_def[symmetric]
      by (simp add: inserted_summaries_snoc)
  next
    case False
    note st = add_chat_memory_step[OF inv False lim step]
    have "map cm_summary (rows_of db' c)
            = drop (length (inserted_summaries cfg c (calls @ [k])) - n)
                (inserted_summaries cfg c (calls @ [k]))" for c
    proof (cases "c = call_chat_id k")
      case True
      let ?ins = "inserted_summaries cfg c calls"
      let ?s = "py_slice_to (call_summary k) (CHAT_MEMORY_MESSAGE_CHAR_LIMIT cfg)"
      have "map cm_summary (rows_of db' c)
              = drop (Suc (length (rows_of db c)) - n) (map cm_summary (rows_of db c) @ [?s])"
        using st(2) unfolding True n_def .
      also have "\<dots> = drop (length (drop (length ?ins - n) ?ins @ [?s]) - n)
                         (drop (length ?ins - n) ?ins @ [?s])"
      proof -
        have "length (rows_of db c) = length (drop (length ?ins - n) ?ins)"
          using arg_cong[OF rows[of c], of length] by simp
        then show ?thesis unfolding rows[of c] by simp
      qed
      also have "\<dots> = drop (length (?ins @ [?s]) - n) (?ins @ [?s])"
        by (rule last_rows_snoc)
      finally show ?thesis using True False by (simp add: inserted_summaries_snoc)
    next
      case False
      then have "rows_of db' c = rows_of db c" by (rule st(3))
      then show ?thesis using rows[of c] False by (simp add: inserted_summaries_snoc)
    qed
    then show ?thesis using st(1) unfolding db'_def n_def by blast
  qed
qed

text \<open>
  C1. With a cap \<open>CHAT_MEMORY_DB_LIMIT = N \<ge> 0\<close>, after any sequence of
  \<open>add_chat_memory\<close> calls on the empty database, \<open>get_chat_memories(chat_id, N)\<close>
  returns at most \<open>N\<close> rows, and they are the \<open>N\<close> most recently inserted
  summaries of that conversation (all of them when fewer were inserted), newest
  first.
\<close>

theorem chat_memories_are_most_recent:
  assumes "0 \<le> CHAT_MEMORY_DB_LIMIT cfg"
  shows "get_chat_memories (add_chat_memories cfg empty_database calls) c (CHAT_MEMORY_DB_LIMIT cfg)
           = take (nat (CHAT_MEMORY_DB_LIMIT cfg)) (rev (inserted_summaries cfg c calls))
         \<and> int (length (get_chat_memories (add_chat_memories cfg empty_database calls) c
                          (CHAT_MEMORY_DB_LIMIT cfg))) \<le> CHAT_MEMORY_DB_LIMIT cfg"
proof -
  define db where "db = add_chat_memories cfg empty_database calls"
  define n where "n = nat (CHAT_MEMORY_DB_LIMIT cfg)"
  let ?ins = "inserted_summaries cfg c calls"
  from add_chat_memories_rows[OF assms, of calls]
  have inv: "store_inv db"
    and rows: "map cm_summary (rows_of db c) = drop (length ?ins - n) ?ins"
    unfolding db_def n_def by auto
  have "get_chat_memories db c (CHAT_MEMORY_DB_LIMIT cfg)
          = map cm_summary (take n (rev (rows_of db c)))"
    unfolding get_chat_memories_def select_sorted[OF inv] sql_limit_def n_def
    using assms by simp
  also have "\<dots> = take n (rev (map cm_summary (rows_of db c)))"
    by (simp add: take_map rev_map)
  also have "\<dots> = take n (take n (rev ?ins))"
    unfolding rows by (simp add: take_rev)
  also have "\<dots> = take n (rev ?ins)" by simp
  finally have eq: "get_chat_memories db c (CHAT_MEMORY_DB_LIMIT cfg) = take n (rev ?ins)" .
  have "int (length (take n (rev ?ins))) \<le> CHAT_MEMORY_DB_LIMIT cfg"
    unfolding n_def using assms by simp
  then show ?thesis using eq unfolding db_def n_def by simp
qed


theorem chat_memories_are_most_recent_witness:
  "0 \<le> CHAT_MEMORY_DB_LIMIT example_settings
   \<and> get_chat_memories (add_chat_memories example_settings empty_database example_calls) 100
        (CHAT_MEMORY_DB_LIMIT example_settings) = [ustr ''e'', ustr ''d'', ustr ''c'']"
proof -
  have h: "0 \<le> CHAT_MEMORY_DB_LIMIT example_settings" by (simp add: example_settings_def)
  have "take (nat (CHAT_MEMORY_DB_LIMIT example_settings))
          (rev (inserted_summaries example_settings 100 example_calls))
        = [ustr ''e'', ustr ''d'', ustr ''c'']"
    by (simp add: inserted_summaries_def example_calls_def memory_call_def example_settings_def
        py_slice_to_def ustr_def)
  with chat_memories_are_most_recent[OF h, of example_calls 100] h show ?thesis by simp
qed


section \<open>Properties of the fact extraction pipeline\<close>

text \<open>
  C4. The claim holds for an answer that \<open>json.loads\<close> rejects, but not for valid
  JSON that is not an object: the chat facts are guarded by
  \<open>isinstance(parsed, dict)\<close>, the user facts are not, and \<open>parsed.get\<close> raises
  \<open>AttributeError\<close> on the list that the answer \<open>[]\<close> parses to.
\<close>

theorem extract_memory_facts_array_raises:
  "json_loads (example_stdlib example_decoded) (ustr ''[]'') = Some (JArr [])
   \<and> extract_memory_facts (example_stdlib example_decoded) example_settings
        (\<lambda>req. Some (ustr ''[]'')) hello_message [target_bob] = Inl AttributeError"
  by (simp add: example_defs memory_defs hello_message_def target_bob_def)

lemma add_chat_memory_user_memories:
  "user_memories (add_chat_memory cfg db c msg_id author_id author_name summary) = user_memories db"
  by (simp add: add_chat_memory_def Let_def)

lemma fallback_note_nonempty: "fallback_note author_name summary t \<noteq> []"
  by (simp add: fallback_note_def NOTE_MIDDLE_def)

lemma add_user_memory_fields:
  "note \<noteq> [] \<Longrightarrow>
     map um_fields (user_memories (add_user_memory cfg db c subject source note))
       = map um_fields (user_memories db)
           @ [(c, subject, source, py_slice_to note (CHAT_MEMORY_MESSAGE_CHAR_LIMIT cfg))]"
  by (simp add: add_user_memory_def um_fields_def Let_def)

lemma fallback_loop_fields:
  "map um_fields (user_memories (fallback_loop cfg c author_id author_name summary targets db))
     = map um_fields (user_memories db)
         @ map (\<lambda>t. (c, the (user_id t), author_id,
                       py_slice_to (fallback_note author_name summary t)
                         (CHAT_MEMORY_MESSAGE_CHAR_LIMIT cfg)))
             (filter has_user_id targets)"
proof (induction targets arbitrary: db)
  case Nil
  show ?case by simp
next
  case (Cons t rest)
  show ?case
  proof (cases "has_user_id t")
    case True
    then obtain i where i: "user_id t = Some i" "i \<noteq> 0"
      by (auto simp: has_user_id_def split: option.splits)
    show ?thesis
      using True i
      by (simp add: Cons.IH add_user_memory_fields[OF fallback_note_nonempty])
  next
    case False
    then have "user_id t = None \<or> user_id t = Some 0"
      by (auto simp: has_user_id_def split: option.splits)
    then show ?thesis using False by (auto simp: Cons.IH)
  qed
qed

text \<open>
  C5, as the claim states it, fails for a target without a user id: the loop skips
  it (\<open>if not target_id: continue\<close>), so one target is supplied and no note is
  recorded.
\<close>

theorem fallback_skips_target_without_id_counterexample:
  "extract_memory_facts (example_stdlib example_decoded) example_settings
     (\<lambda>req. Some (ustr ''{}'')) hello_message [target_without_id] = Inr ([], [])
   \<and> [target_without_id] \<noteq> []
   \<and> text_or_caption hello_message = Some (ustr ''hello'')
   \<and> snd (store_structured_memories (example_stdlib example_decoded) example_settings
        (\<lambda>req. Some (ustr ''{}'')) empty_database hello_message [target_without_id]) = None
   \<and> user_memories (fst (store_structured_memories (example_stdlib example_decoded)
        example_settings (\<lambda>req. Some (ustr ''{}'')) empty_database hello_message
        [target_without_id])) = []"
  by (simp add: example_defs memory_defs hello_message_def target_without_id_def)

text \<open>
  C5, amended. In a group conversation, if the extraction produced no chat facts
  and no user facts and the message had text, \<open>store_structured_memories\<close> returns
  normally and appends to \<open>user_memories\<close> exactly one row per supplied target that
  has a non-zero user id, in the order of the targets: for this conversation,
  with that user id as subject and the author as source, the note being the
  fallback sentence for that target cut to \<open>CHAT_MEMORY_MESSAGE_CHAR_LIMIT\<close>
  characters. With no target supplied nothing is appended.
\<close>

theorem fallback_notes_per_target:
  assumes "chat_type m = ustr ''group'' \<or> chat_type m = ustr ''supergroup''"
    and "extract_memory_facts lib cfg call_openrouter m targets = Inr ([], [])"
    and "text_or_caption m = Some t" and "t \<noteq> []"
  shows "snd (store_structured_memories lib cfg call_openrouter db m targets) = None
         \<and> map um_fields
             (user_memories (fst (store_structured_memories lib cfg call_openrouter db m targets)))
           = map um_fields (user_memories db)
               @ map (\<lambda>tg. (chat_id m, the (user_id tg), map_option user_ident (from_user m),
                             py_slice_to
                               (fallback_note (get_display_name (from_user m))
                                  (summarize_message_text cfg m) tg)
                               (CHAT_MEMORY_MESSAGE_CHAR_LIMIT cfg)))
                   (filter has_user_id targets)"
proof (cases "targets = []")
  case True
  then show ?thesis using assms
    by (auto simp: store_structured_memories_def Let_def add_chat_memory_user_memories)
next
  case False
  then show ?thesis using assms
    by (auto simp: store_structured_memories_def Let_def fallback_loop_fields
        add_chat_memory_user_memories)
qed

theorem fallback_notes_per_target_witness:
  "extract_memory_facts (example_stdlib example_decoded) example_settings
     (\<lambda>req. Some (ustr ''{}'')) hello_message [target_bob] = Inr ([], [])
   \<and> map um_fields (user_memories (fst (store_structured_memories
         (example_stdlib example_decoded) example_settings (\<lambda>req. Some (ustr ''{}''))
         empty_database hello_message [target_bob])))
       = [(100, 42, Some 7, ustr ''Ann'' @ NOTE_MIDDLE @ ustr ''hello'' @ NOTE_END @ ustr ''Bob'')]
   \<and> map um_fields (user_memories (fst (store_structured_memories
         (example_stdlib example_decoded) example_settings (\<lambda>req. Some (ustr ''{}''))
         empty_database hello_message [])))
       = []"
proof -
  let ?lib = "example_stdlib example_decoded"
  have g: "chat_type hello_message = ustr ''group'' \<or> chat_type hello_message = ustr ''supergroup''"
    by (simp add: hello_message_def)
  have t: "text_or_caption hello_message = Some (ustr ''hello'')" "ustr ''hello'' \<noteq> []"
    by (simp_all add: hello_message_def text_or_caption_def ustr_def)
  have e1: "extract_memory_facts ?lib example_settings (\<lambda>req. Some (ustr ''{}''))
              hello_message [target_bob] = Inr ([], [])"
    by (simp add: example_defs memory_defs hello_message_def target_bob_def)
  have e0: "extract_memory_facts ?lib example_settings (\<lambda>req. Some (ustr ''{}''))
              hello_message [] = Inr ([], [])"
    by (simp add: example_defs memory_defs hello_message_def)
  have n: "py_slice_to (fallback_note (get_display_name (from_user hello_message))
                (summarize_message_text example_settings hello_message) target_bob)
             (CHAT_MEMORY_MESSAGE_CHAR_LIMIT example_settings)
           = ustr ''Ann'' @ NOTE_MIDDLE @ ustr ''hello'' @ NOTE_END @ ustr ''Bob''"
    by (simp add: example_defs memory_defs hello_message_def target_bob_def
        NOTE_MIDDLE_def NOTE_END_def)
  have f: "filter has_user_id [target_bob] = [target_bob]" "the (user_id target_bob) = 42"
    "chat_id hello_message = 100" "map_option user_ident (from_user hello_message) = Some 7"
    by (simp_all add: has_user_id_def target_bob_def hello_message_def example_user_def)
  from fallback_notes_per_target[OF g e1 t, of empty_database]
       fallback_notes_per_target[OF g e0 t, of empty_database]
       e1 n f
  show ?thesis by (simp add: empty_database_def)
qed

end
